theory Spec2Isabelle
  imports Main "HOL-Library.Sublist" "HOL-Library.Multiset"
begin

section \<open>ghbackup: discovery of an account's repositories and their backup\<close>

text \<open>
  The program of \<^verbatim>\<open>main.go\<close> asks the hosting service whether an account is a user or an
  organization, lists the account's repositories page by page, and clones or pulls each
  of them with a pool of worker goroutines. The network, the JSON decoder, the URL
  library, the filesystem and the \<^verbatim>\<open>git\<close> subprocess are outside the program: they
  are fields of a record \<open>world\<close> that every function takes, so that each theorem holds
  for whatever these collaborators answer. A Go \<^verbatim>\<open>panic\<close> is the \<open>Inl\<close> of a sum.
\<close>

subsection \<open>Strings: the functions of package \<^verbatim>\<open>strings\<close> the program calls\<close>

text \<open>
  A Go string is a sequence of bytes, as \<open>string\<close> is here. \<^verbatim>\<open>strings.Split(s, sep)\<close> is
  called with the one-byte separators \<^verbatim>\<open>","\<close> and \<^verbatim>\<open>";"\<close> only, so the separator is a
  character. Its result is never empty: a string without the separator gives the
  one-element list of the string itself.
\<close>

fun split_str :: "string \<Rightarrow> char \<Rightarrow> string list" where
  "split_str [] sep = [[]]"
| "split_str (c # cs) sep =
     (if c = sep then [] # split_str cs sep
      else (let ps = split_str cs sep in (c # hd ps) # tl ps))"

text \<open>\<^verbatim>\<open>strings.Contains(s, substr)\<close>: \<open>substr\<close> occurs in \<open>s\<close> at some position.\<close>

fun contains :: "string \<Rightarrow> string \<Rightarrow> bool" where
  "contains [] substr = (substr = [])"
| "contains (c # cs) substr = (prefix substr (c # cs) \<or> contains cs substr)"

text \<open>\<^verbatim>\<open>strings.Join(elems, sep)\<close>.\<close>

fun join_str :: "string list \<Rightarrow> string \<Rightarrow> string" where
  "join_str [] sep = []"
| "join_str [x] sep = x"
| "join_str (x # y # ys) sep = x @ sep @ join_str (y # ys) sep"

subsection \<open>Panics\<close>

text \<open>
  Every \<^verbatim>\<open>panic\<close> of the program, by the place that raises it. A panic is never
  recovered: it ends the process with exit status 2, whichever goroutine raised it.
\<close>

datatype panic =
    TransportError string          \<comment> \<open>\<^verbatim>\<open>panic(err)\<close> after \<^verbatim>\<open>http.Get\<close>\<close>
  | BadStatus string int           \<comment> \<open>"Request to \<open>u\<close> with bad status code \<open>c\<close>"\<close>
  | UnknownAccountType string string  \<comment> \<open>"Unknown type of account \<open>t\<close> for name \<open>n\<close>"\<close>
  | SliceBounds                    \<comment> \<open>run-time panic of a slice expression out of range\<close>
  | UrlParseError string           \<comment> \<open>\<^verbatim>\<open>panic(err)\<close> after \<^verbatim>\<open>url.Parse\<close>\<close>
  | StatError string               \<comment> \<open>\<^verbatim>\<open>panic(err)\<close> in \<^verbatim>\<open>exists\<close>\<close>

text \<open>
  The slice expression \<^verbatim>\<open>s[lo:hi]\<close> on a string: a run-time panic unless
  \<open>0 \<le> lo \<le> hi \<le> len(s)\<close>.
\<close>

definition slice :: "string \<Rightarrow> int \<Rightarrow> int \<Rightarrow> panic + string" where
  "slice s lo hi =
     (if 0 \<le> lo \<and> lo \<le> hi \<and> hi \<le> int (length s)
      then Inr (take (nat (hi - lo)) (drop (nat lo) s))
      else Inl SliceBounds)"

subsection \<open>Data\<close>

text \<open>\<^verbatim>\<open>type Repo struct { Name string; GitUrl string `json:"git_url"` }\<close>\<close>

record Repo =
  Name :: string
  GitUrl :: string

text \<open>
  What the program reads of an \<^verbatim>\<open>*http.Response\<close>: the status code, the body,
  \<^verbatim>\<open>r.Header["Link"]\<close>, the list of values of the Link header, and
  \<^verbatim>\<open>r.Request.URL\<close>, the URL of the request that was answered (after redirects), as
  it is printed.
\<close>

record response =
  StatusCode :: int
  Body :: string
  Link :: "string list"
  RequestURL :: string

text \<open>
  \<^verbatim>\<open>url.URL\<close>: the program assigns \<^verbatim>\<open>RawQuery\<close> and leaves the other fields as
  \<^verbatim>\<open>url.Parse\<close> set them. \<^verbatim>\<open>url.Values\<close> is a map from a key to its list of values; it is
  an association list here, read by its first entry for a key.
\<close>

record url =
  Scheme :: string
  Host :: string
  Path :: string
  RawQuery :: string
  Fragment :: string

type_synonym url_values = "(string \<times> string list) list"

text \<open>\<^verbatim>\<open>Values.Set(key, value)\<close>: the key's values become the one value.\<close>

definition values_Set :: "url_values \<Rightarrow> string \<Rightarrow> string \<Rightarrow> url_values" where
  "values_Set q key v = (key, [v]) # filter (\<lambda>kv. fst kv \<noteq> key) q"

text \<open>\<^verbatim>\<open>Values.Get(key)\<close>: the first value of the key, the empty string without one.\<close>

definition values_Get :: "url_values \<Rightarrow> string \<Rightarrow> string" where
  "values_Get q key =
     (case map_of q key of None \<Rightarrow> [] | Some vs \<Rightarrow> (case vs of [] \<Rightarrow> [] | v # _ \<Rightarrow> v))"

text \<open>The three answers of \<^verbatim>\<open>os.Stat\<close> that \<^verbatim>\<open>exists\<close> tells apart.\<close>

datatype stat_result =
    StatOk                  \<comment> \<open>\<^verbatim>\<open>err == nil\<close>\<close>
  | StatNotExist            \<comment> \<open>\<^verbatim>\<open>os.IsNotExist(err)\<close>\<close>
  | StatFailed string       \<comment> \<open>any other error, such as a permission error\<close>

text \<open>
  \<^verbatim>\<open>exec.Cmd\<close>: the argument vector (\<^verbatim>\<open>exec.Command(name, arg...)\<close> puts the name
  first) and the working directory, empty for the directory of the calling process.
\<close>

record cmd =
  Args :: "string list"
  Dir :: string

definition Command :: "string \<Rightarrow> string list \<Rightarrow> cmd" where
  "Command name arg = \<lparr>Args = name # arg, Dir = []\<rparr>"

subsection \<open>The world outside the program\<close>

text \<open>
  Each field is a call the program makes into a library or the operating system. An
  error return is an \<open>Inl\<close> or a \<open>Some\<close>. The two decoders give what
  \<^verbatim>\<open>json.NewDecoder(r.Body).Decode(&v)\<close> leaves in \<open>v\<close> for a body, together with
  the error \<^verbatim>\<open>Decode\<close> returns.
\<close>

record world =
  httpGet :: "string \<Rightarrow> string + response"
  decodeAccountType :: "string \<Rightarrow> string \<times> string option"
  decodeRepos :: "string \<Rightarrow> Repo list \<times> string option"
  urlParse :: "string \<Rightarrow> string + url"
  parseQuery :: "string \<Rightarrow> url_values"
  encodeQuery :: "url_values \<Rightarrow> string"
  urlString :: "url \<Rightarrow> string"
  pathJoin :: "string \<Rightarrow> string \<Rightarrow> string"
  osStat :: "string \<Rightarrow> stat_result"
  cmdRun :: "cmd \<Rightarrow> string option"
  verboseFlag :: bool

definition githubApi :: string where
  "githubApi = ''https://api.github.com''"

definition maxWorkers :: int where
  "maxWorkers = 10"

subsection \<open>Account classification: \<^verbatim>\<open>getCategory\<close>\<close>

text \<open>
  The error of \<^verbatim>\<open>Decode\<close> is not looked at: \<^verbatim>\<open>account.Type\<close> is what the decoder left
  there.
\<close>

definition getCategory :: "world \<Rightarrow> string \<Rightarrow> panic + string" where
  "getCategory w name =
     (case httpGet w (join_str [githubApi, ''users'', name] ''/'') of
        Inl err \<Rightarrow> Inl (TransportError err)
      | Inr r \<Rightarrow>
          if StatusCode r \<ge> 300
          then Inl (BadStatus (RequestURL r) (StatusCode r))
          else
            (let account_Type = fst (decodeAccountType w (Body r)) in
             if account_Type = ''User'' then Inr ''users''
             else if account_Type = ''Organization'' then Inr ''orgs''
             else Inl (UnknownAccountType account_Type name)))"

subsection \<open>Enumeration: \<^verbatim>\<open>getRepos\<close>\<close>

text \<open>
  Lines 126 to 133 of \<^verbatim>\<open>getRepos\<close>, which read the Link header: \<open>Inr (Some u)\<close> is the
  URL the function calls itself with, \<open>Inr None\<close> the fall through to
  \<^verbatim>\<open>return repos\<close>. Only the first value of the header and only its first
  comma-separated part (\<^verbatim>\<open>firstLink\<close>) are looked at.
\<close>

definition relNext :: string where
  \<open>relNext = ''rel="next"''\<close>

definition nextLink :: "string list \<Rightarrow> panic + string option" where
  "nextLink linkHeader =
     (if length linkHeader > 0 then
        (let firstLink = split_str (linkHeader ! 0) (CHR '','') ! 0 in
         if contains firstLink relNext then
           (let urlInBrackets = split_str firstLink (CHR '';'') ! 0 in
            case slice urlInBrackets 1 (int (length urlInBrackets) - 1) of
              Inl p \<Rightarrow> Inl p
            | Inr u \<Rightarrow> Inr (Some u))
         else Inr None)
      else Inr None)"

text \<open>
  \<^verbatim>\<open>getRepos\<close> calls itself for as long as the responses name a next page, which a
  service can do for ever: \<open>None\<close> is the call that does not return. The error of
  \<^verbatim>\<open>Decode\<close> is not looked at.
\<close>

partial_function (option) getRepos :: "world \<Rightarrow> string \<Rightarrow> (panic + Repo list) option" where
  [code]: "getRepos w u =
     (case httpGet w u of
        Inl err \<Rightarrow> Some (Inl (TransportError err))
      | Inr r \<Rightarrow>
          if StatusCode r \<ge> 300 then Some (Inl (BadStatus u (StatusCode r)))
          else
            (let repos = fst (decodeRepos w (Body r)) in
             case nextLink (Link r) of
               Inl p \<Rightarrow> Some (Inl p)
             | Inr None \<Rightarrow> Some (Inr repos)
             | Inr (Some next) \<Rightarrow>
                 Option.bind (getRepos w next)
                   (\<lambda>rest. Some (case rest of
                                   Inl p \<Rightarrow> Inl p
                                 | Inr others \<Rightarrow> Inr (repos @ others)))))"

subsection \<open>Page size: \<^verbatim>\<open>setMaxPageSize\<close>\<close>

definition setMaxPageSize :: "world \<Rightarrow> string \<Rightarrow> panic + string" where
  "setMaxPageSize w rawUrl =
     (case urlParse w rawUrl of
        Inl err \<Rightarrow> Inl (UrlParseError err)
      | Inr u \<Rightarrow>
          (let q = parseQuery w (RawQuery u);
               q = values_Set q ''per_page'' ''100''
           in Inr (urlString w (u\<lparr>RawQuery := encodeQuery w q\<rparr>))))"

subsection \<open>One repository: \<^verbatim>\<open>exists\<close>, \<^verbatim>\<open>verbose\<close>, \<^verbatim>\<open>updateRepo\<close>\<close>

text \<open>
  What the program does that can be seen from outside: the subprocess it runs, the line
  \<^verbatim>\<open>fmt.Fprintln(os.Stderr, err)\<close> writes, and the operands \<^verbatim>\<open>log.Println\<close> is called
  with (a string or an \<^verbatim>\<open>int\<close>; the logger formats them and adds the time).
\<close>

datatype operand = S string | I int

datatype event =
    Exec cmd                \<comment> \<open>\<^verbatim>\<open>cmd.Run()\<close> starts the subprocess\<close>
  | Stderr string           \<comment> \<open>\<^verbatim>\<open>fmt.Fprintln(os.Stderr, err)\<close>\<close>
  | Logged "operand list"   \<comment> \<open>\<^verbatim>\<open>log.Println(info...)\<close>\<close>

definition exists :: "world \<Rightarrow> string \<Rightarrow> panic + bool" where
  "exists w path =
     (case osStat w path of
        StatNotExist \<Rightarrow> Inr False
      | StatFailed err \<Rightarrow> Inl (StatError err)
      | StatOk \<Rightarrow> Inr True)"

definition verbose :: "world \<Rightarrow> operand list \<Rightarrow> event list" where
  "verbose w info = (if verboseFlag w then [Logged info] else [])"

text \<open>
  \<^verbatim>\<open>updateRepo\<close> in the three stretches between which other goroutines can run.
  \<open>prepare\<close> is lines 152 to 164: the path, the existence check, the command, and the
  operands of the deferred \<^verbatim>\<open>verbose\<close> call, which Go evaluates at the \<^verbatim>\<open>defer\<close>
  statement. \<open>report\<close> is lines 167 to 169, on the error \<^verbatim>\<open>cmd.Run()\<close> returned. The
  deferred call runs last, when the function returns, whatever the error was.
\<close>

definition prepare :: "world \<Rightarrow> string \<Rightarrow> Repo \<Rightarrow> panic + cmd \<times> operand list" where
  "prepare w backupDir repo =
     (let repoDir = pathJoin w backupDir (Name repo) in
      case exists w repoDir of
        Inl p \<Rightarrow> Inl p
      | Inr True \<Rightarrow>
          Inr ((Command ''git'' [''pull''])\<lparr>Dir := repoDir\<rparr>,
               [S ''Updated repository:'', S (Name repo)])
      | Inr False \<Rightarrow>
          Inr (Command ''git'' [''clone'', GitUrl repo, repoDir],
               [S ''Cloned  repository:'', S (Name repo)]))"

definition report :: "string option \<Rightarrow> event list" where
  "report err = (case err of None \<Rightarrow> [] | Some e \<Rightarrow> [Stderr e])"

definition updateRepo :: "world \<Rightarrow> string \<Rightarrow> Repo \<Rightarrow> panic + event list" where
  "updateRepo w backupDir repo =
     (case prepare w backupDir repo of
        Inl p \<Rightarrow> Inl p
      | Inr (c, deferred) \<Rightarrow>
          Inr ([Exec c] @ report (cmdRun w c) @ verbose w deferred))"

subsection \<open>The worker pool of \<^verbatim>\<open>main\<close>\<close>

text \<open>
  The state of the process once the workers are started. \<open>queue\<close> holds the
  repositories the main goroutine has still to send on the unbuffered channel
  \<^verbatim>\<open>jobs\<close>, in order; the channel is closed once the queue is empty. A worker is
  \<^item> \<open>Idle\<close>: blocked in \<^verbatim>\<open>range jobs\<close>;
  \<^item> \<open>Running c d\<close>: inside \<^verbatim>\<open>cmd.Run()\<close> for the command \<open>c\<close>, with the deferred
    operands \<open>d\<close>;
  \<^item> \<open>Returning d\<close>: past line 169, the deferred call not yet made;
  \<^item> \<open>Done\<close>: its loop has ended and \<^verbatim>\<open>wg.Done()\<close> has run.
  \<open>crashed\<close> is the panic that ended the process, if one did.
\<close>

datatype worker = Idle | Running cmd "operand list" | Returning "operand list" | Done

record proc =
  dir :: string
  queue :: "Repo list"
  ws :: "worker list"
  out :: "event list"
  crashed :: "panic option"

text \<open>
  Lines 47 to 61: the number of workers, and the loop that starts them; the loop body
  runs \<open>workers\<close> times, and not at all when \<open>workers \<le> 0\<close>.
\<close>

definition workers :: "int \<Rightarrow> Repo list \<Rightarrow> int" where
  "workers maxW repos =
     (if int (length repos) < maxW then int (length repos) else maxW)"

definition dispatch :: "int \<Rightarrow> string \<Rightarrow> Repo list \<Rightarrow> event list \<Rightarrow> proc" where
  "dispatch maxW backupDir repos printed =
     \<lparr>dir = backupDir, queue = repos,
      ws = replicate (nat (workers maxW repos)) Idle,
      out = printed, crashed = None\<rparr>"

text \<open>
  One move of worker \<open>i\<close>. Which worker moves next is up to the scheduler; a run is the
  list of these choices. After a panic nothing moves any more.
\<close>

definition step :: "world \<Rightarrow> nat \<Rightarrow> proc \<Rightarrow> proc" where
  "step w i s =
     (if crashed s \<noteq> None \<or> i \<ge> length (ws s) then s
      else case ws s ! i of
        Idle \<Rightarrow>
          (case queue s of
             [] \<Rightarrow> s\<lparr>ws := (ws s)[i := Done]\<rparr>
           | repo # rest \<Rightarrow>
               (case prepare w (dir s) repo of
                  Inl p \<Rightarrow> s\<lparr>queue := rest, crashed := Some p\<rparr>
                | Inr (c, deferred) \<Rightarrow>
                    s\<lparr>queue := rest, ws := (ws s)[i := Running c deferred],
                      out := out s @ [Exec c]\<rparr>))
      | Running c deferred \<Rightarrow>
          s\<lparr>ws := (ws s)[i := Returning deferred], out := out s @ report (cmdRun w c)\<rparr>
      | Returning deferred \<Rightarrow>
          s\<lparr>ws := (ws s)[i := Idle], out := out s @ verbose w deferred\<rparr>
      | Done \<Rightarrow> s)"

fun exec :: "world \<Rightarrow> nat list \<Rightarrow> proc \<Rightarrow> proc" where
  "exec w [] s = s"
| "exec w (i # sched) s = exec w sched (step w i s)"

text \<open>
  The exit status of the process, \<open>None\<close> while it runs. A panic ends it with status 2.
  \<^verbatim>\<open>main\<close> returns, and the status is 0, once every repository is sent and
  \<^verbatim>\<open>wg.Wait()\<close> has seen every worker done. With no worker and a repository to send,
  every goroutine is blocked, which the Go runtime ends with status 2.
\<close>

definition exit_status :: "proc \<Rightarrow> int option" where
  "exit_status s =
     (if crashed s \<noteq> None then Some 2
      else if queue s = [] \<and> list_all (\<lambda>x. x = Done) (ws s) then Some 0
      else if ws s = [] then Some 2
      else None)"

subsection \<open>\<^verbatim>\<open>main\<close> up to the start of the workers\<close>

text \<open>
  \<open>args\<close> is \<^verbatim>\<open>flag.Args()\<close>, the arguments left after the flags. A process that ends
  before the workers start either calls \<^verbatim>\<open>os.Exit\<close> or panics.
\<close>

datatype ended = Exit int | Panicked panic

definition parseArgs :: "string list \<Rightarrow> ended + string \<times> string" where
  "parseArgs args =
     (if length args \<noteq> 2 then Inl (Exit 1) else Inr (args ! 0, args ! 1))"

definition firstPage :: "string \<Rightarrow> string \<Rightarrow> string" where
  "firstPage category name = join_str [githubApi, category, name, ''repos''] ''/''"

definition main :: "world \<Rightarrow> string list \<Rightarrow> (ended + proc) option" where
  "main w args =
     (case parseArgs args of
        Inl e \<Rightarrow> Some (Inl e)
      | Inr (name, backupDir) \<Rightarrow>
          (case getCategory w name of
             Inl p \<Rightarrow> Some (Inl (Panicked p))
           | Inr category \<Rightarrow>
               (case setMaxPageSize w (firstPage category name) of
                  Inl p \<Rightarrow> Some (Inl (Panicked p))
                | Inr u \<Rightarrow>
                    Option.bind (getRepos w u)
                      (\<lambda>res. case res of
                         Inl p \<Rightarrow> Some (Inl (Panicked p))
                       | Inr repos \<Rightarrow>
                           (case slice category 0 (int (length category) - 1) of
                              Inl p \<Rightarrow> Some (Inl (Panicked p))
                            | Inr kind \<Rightarrow>
                                Some (Inr (dispatch maxWorkers backupDir repos
                                  (verbose w [S ''Backup for'', S kind, S name, S ''with'',
                                     I (int (length repos)), S ''repositories'']))))))))"

subsection \<open>The second entry point\<close>

text \<open>
  The other \<^verbatim>\<open>main\<close> of the repository hands the work to \<^verbatim>\<open>ghbackup.Run\<close> of the
  imported package \<^verbatim>\<open>qvl.io/ghbackup/ghbackup\<close>, which is not part of these sources:
  \<open>Run\<close> stands for the error it returns for an account, a directory and a secret.
  The exit status is 1 for a wrong number of arguments and when \<open>Run\<close> returns an
  error, and 0 when \<^verbatim>\<open>main\<close> returns.
\<close>

definition ghbackup_main ::
  "(string \<Rightarrow> string \<Rightarrow> string \<Rightarrow> string option) \<Rightarrow> string \<Rightarrow> string list \<Rightarrow> int" where
  "ghbackup_main Run secret args =
     (if length args \<noteq> 2 then 1
      else case Run (args ! 0) (args ! 1) secret of Some err \<Rightarrow> 1 | None \<Rightarrow> 0)"

section \<open>Notions the statements use\<close>

subsection \<open>The Link header as the specification reads it\<close>

text \<open>
  The specification's reading of a Link header value, for comparison with
  \<open>nextLink\<close>: of the comma-separated entries, the one that carries \<^verbatim>\<open>rel="next"\<close>,
  wherever it stands, and of that entry the text between \<^verbatim>\<open><\<close> and \<^verbatim>\<open>>\<close>; no such
  entry means the last page.
\<close>

definition spec_next :: "string \<Rightarrow> string option" where
  "spec_next h =
     (case filter (\<lambda>e. contains e relNext) (split_str h (CHR '','')) of
        [e] \<Rightarrow> Some (takeWhile (\<lambda>c. c \<noteq> CHR ''>'') (tl (dropWhile (\<lambda>c. c \<noteq> CHR ''<'') e)))
      | _ \<Rightarrow> None)"

subsection \<open>Sequences of pages\<close>

text \<open>
  The service's side of a listing, read from the responses alone. \<open>spec_pages w u ps\<close>:
  asked for \<open>u\<close>, the service answers with the pages \<open>ps\<close>, one after the other: each
  response has a status from 200 to 299 and a body that decodes without error to the
  page's repositories, each page but the last names the next page's URL in the
  \<^verbatim>\<open>rel="next"\<close> entry of its Link header, wherever that entry stands, and the last page
  has no such entry.
\<close>

definition spec_link :: "response \<Rightarrow> string option" where
  "spec_link r = (case Link r of [] \<Rightarrow> None | h # hs \<Rightarrow> spec_next h)"

fun spec_pages :: "world \<Rightarrow> string \<Rightarrow> Repo list list \<Rightarrow> bool" where
  "spec_pages w u [] = False"
| "spec_pages w u [p] =
     (case httpGet w u of
        Inl err \<Rightarrow> False
      | Inr r \<Rightarrow> 200 \<le> StatusCode r \<and> StatusCode r < 300 \<and>
                decodeRepos w (Body r) = (p, None) \<and> spec_link r = None)"
| "spec_pages w u (p # q # ps) =
     (case httpGet w u of
        Inl err \<Rightarrow> False
      | Inr r \<Rightarrow> 200 \<le> StatusCode r \<and> StatusCode r < 300 \<and>
                decodeRepos w (Body r) = (p, None) \<and>
                (case spec_link r of
                   None \<Rightarrow> False
                 | Some next \<Rightarrow> spec_pages w next (q # ps)))"

text \<open>
  Where the \<^verbatim>\<open>rel="next"\<close> entry stands. \<open>first_entry h\<close> is the header value up to its
  first comma. \<open>first_next r\<close> is the next page's URL when the service names it in the
  first entry and that entry begins with the URL in angle brackets, followed by a
  semicolon or nothing. \<open>first_silent r\<close>: the response has no Link header, or the first
  entry of the header does not carry \<^verbatim>\<open>rel="next"\<close> (a later entry may).
\<close>

definition first_entry :: "string \<Rightarrow> string" where
  "first_entry h = takeWhile (\<lambda>c. c \<noteq> CHR '','') h"

definition first_next :: "response \<Rightarrow> string option" where
  "first_next r =
     (case Link r of
        [] \<Rightarrow> None
      | h # hs \<Rightarrow>
          (case spec_next h of
             None \<Rightarrow> None
           | Some n \<Rightarrow>
               if contains (first_entry h) relNext \<and>
                  takeWhile (\<lambda>c. c \<noteq> CHR '';'') (first_entry h) = ''<'' @ n @ ''>''
               then Some n else None))"

definition first_silent :: "response \<Rightarrow> bool" where
  "first_silent r =
     (case Link r of [] \<Rightarrow> True | h # hs \<Rightarrow> \<not> contains (first_entry h) relNext)"

text \<open>
  \<open>pages_first w u ps\<close>: asked for \<open>u\<close>, the service answers with the pages \<open>ps\<close>, each
  with a status below 300, each but the last naming the next page in the first entry of
  its Link header, and the last with a first entry that names none. The decoder leaves
  the page's repositories in \<^verbatim>\<open>repos\<close>.
\<close>

fun pages_first :: "world \<Rightarrow> string \<Rightarrow> Repo list list \<Rightarrow> bool" where
  "pages_first w u [] = False"
| "pages_first w u [p] =
     (case httpGet w u of
        Inl err \<Rightarrow> False
      | Inr r \<Rightarrow> StatusCode r < 300 \<and> fst (decodeRepos w (Body r)) = p \<and> first_silent r)"
| "pages_first w u (p # q # ps) =
     (case httpGet w u of
        Inl err \<Rightarrow> False
      | Inr r \<Rightarrow> StatusCode r < 300 \<and> fst (decodeRepos w (Body r)) = p \<and>
                (case first_next r of
                   None \<Rightarrow> False
                 | Some next \<Rightarrow> pages_first w next (q # ps)))"

text \<open>
  \<open>fails_after w u k\<close>: \<open>k\<close> pages are fetched with a status below 300, each naming
  the next page in the first entry of its Link header, and the fetch after them fails
  in transport or has a status of 300 or more.
\<close>

fun fails_after :: "world \<Rightarrow> string \<Rightarrow> nat \<Rightarrow> bool" where
  "fails_after w u 0 =
     (case httpGet w u of Inl err \<Rightarrow> True | Inr r \<Rightarrow> StatusCode r \<ge> 300)"
| "fails_after w u (Suc k) =
     (case httpGet w u of
        Inl err \<Rightarrow> False
      | Inr r \<Rightarrow> StatusCode r < 300 \<and>
                (case first_next r of
                   None \<Rightarrow> False
                 | Some next \<Rightarrow> fails_after w next k))"

subsection \<open>Runs of the worker pool\<close>

text \<open>
  \<open>stat_ok\<close>: the existence check of the repository's directory does not panic.
  \<open>events\<close>: what \<^verbatim>\<open>updateRepo\<close> does for a repository, nothing if it panics.
  \<open>failing\<close>: the clone or pull of the repository returns an error.
\<close>

definition stat_ok :: "world \<Rightarrow> string \<Rightarrow> Repo \<Rightarrow> bool" where
  "stat_ok w backupDir repo =
     (case osStat w (pathJoin w backupDir (Name repo)) of
        StatFailed err \<Rightarrow> False
      | _ \<Rightarrow> True)"

definition events :: "world \<Rightarrow> string \<Rightarrow> Repo \<Rightarrow> event list" where
  "events w backupDir repo =
     (case updateRepo w backupDir repo of Inl p \<Rightarrow> [] | Inr es \<Rightarrow> es)"

definition failing :: "world \<Rightarrow> string \<Rightarrow> Repo \<Rightarrow> bool" where
  "failing w backupDir repo =
     (case prepare w backupDir repo of
        Inl p \<Rightarrow> False
      | Inr (c, deferred) \<Rightarrow> cmdRun w c \<noteq> None)"

fun isStderr :: "event \<Rightarrow> bool" where
  "isStderr (Stderr e) = True"
| "isStderr _ = False"

text \<open>
  What a worker has still to do for the repository it holds, and the \<open>ledger\<close> of a
  state: the events so far, those the busy workers still owe, and those of the
  repositories not yet sent.
\<close>

fun remaining :: "world \<Rightarrow> worker \<Rightarrow> event list" where
  "remaining w Idle = []"
| "remaining w (Running c deferred) = report (cmdRun w c) @ verbose w deferred"
| "remaining w (Returning deferred) = verbose w deferred"
| "remaining w Done = []"

definition ledger :: "world \<Rightarrow> proc \<Rightarrow> event multiset" where
  "ledger w s =
     mset (out s) + mset (concat (map (remaining w) (ws s))) +
     mset (concat (map (events w (dir s)) (queue s)))"

text \<open>
  A state is \<open>sound\<close> when no panic has occurred, no repository still to be sent
  makes the existence check panic, and, while repositories are still to be sent, there
  are workers and none of them has left its loop. The \<open>potential\<close> of a state bounds the
  moves still to be made: three for each repository to be sent, and for each worker the
  moves that bring it back to \<^verbatim>\<open>range jobs\<close> and out of the loop.
\<close>

fun rank :: "worker \<Rightarrow> nat" where
  "rank Idle = 1"
| "rank (Running c deferred) = 3"
| "rank (Returning deferred) = 2"
| "rank Done = 0"

definition potential :: "proc \<Rightarrow> nat" where
  "potential s = 3 * length (queue s) + sum_list (map rank (ws s))"

definition sound :: "world \<Rightarrow> proc \<Rightarrow> bool" where
  "sound w s =
     (crashed s = None \<and> list_all (stat_ok w (dir s)) (queue s) \<and>
      (queue s = [] \<or> (ws s \<noteq> [] \<and> list_all (\<lambda>x. x \<noteq> Done) (ws s))))"

subsection \<open>Sample worlds\<close>

text \<open>
  The account \<^verbatim>\<open>octo\<close> is a user with three repositories on two pages, the account
  \<^verbatim>\<open>void\<close> has none. In the backup directory \<^verbatim>\<open>alpha\<close> exists already, and the
  clone of \<^verbatim>\<open>beta\<close> fails. The URL library of the sample accepts a URL without a
  query only.
\<close>

definition alpha :: Repo where
  "alpha = \<lparr>Name = ''alpha'', GitUrl = ''git://github.com/octo/alpha.git''\<rparr>"

definition beta :: Repo where
  "beta = \<lparr>Name = ''beta'', GitUrl = ''git://github.com/octo/beta.git''\<rparr>"

definition gamma :: Repo where
  "gamma = \<lparr>Name = ''gamma'', GitUrl = ''git://github.com/octo/gamma.git''\<rparr>"

definition page1 :: string where
  "page1 = ''https://api.github.com/users/octo/repos?per_page=100''"

definition page2 :: string where
  "page2 = ''https://api.github.com/user/9/repos?per_page=100&page=2''"

definition linkNextLast :: string where
  \<open>linkNextLast = ''<https://api.github.com/user/9/repos?per_page=100&page=2>; rel="next", <https://api.github.com/user/9/repos?per_page=100&page=2>; rel="last"''\<close>

definition linkFirstPrev :: string where
  \<open>linkFirstPrev = ''<https://api.github.com/user/9/repos?per_page=100&page=1>; rel="first", <https://api.github.com/user/9/repos?per_page=100&page=1>; rel="prev"''\<close>

definition linkPrevNext :: string where
  \<open>linkPrevNext = ''<https://api.github.com/user/9/repos?page=1>; rel="prev", <https://api.github.com/user/9/repos?page=3>; rel="next"''\<close>

definition demo :: world where
  "demo = \<lparr>
     httpGet = (\<lambda>u.
       if u = ''https://api.github.com/users/octo''
         then Inr \<lparr>StatusCode = 200, Body = ''account'', Link = [], RequestURL = u\<rparr>
       else if u = page1
         then Inr \<lparr>StatusCode = 200, Body = ''first'', Link = [linkNextLast], RequestURL = u\<rparr>
       else if u = page2
         then Inr \<lparr>StatusCode = 200, Body = ''second'', Link = [linkFirstPrev], RequestURL = u\<rparr>
       else if u = ''https://api.github.com/users/void/repos?per_page=100''
         then Inr \<lparr>StatusCode = 200, Body = ''[]'', Link = [], RequestURL = u\<rparr>
       else Inr \<lparr>StatusCode = 404, Body = [], Link = [], RequestURL = u\<rparr>),
     decodeAccountType = (\<lambda>b.
       if b = ''account'' then (''User'', None)
       else ([], Some ''invalid character looking for beginning of value'')),
     decodeRepos = (\<lambda>b.
       if b = ''first'' then ([alpha, beta], None)
       else if b = ''second'' then ([gamma], None)
       else if b = ''[]'' then ([], None)
       else ([], Some ''invalid character looking for beginning of value'')),
     urlParse = (\<lambda>s.
       if CHR ''?'' \<in> set s \<or> CHR '' '' \<in> set s then Inl ''invalid character in URL''
       else Inr \<lparr>Scheme = [], Host = [], Path = s, RawQuery = [], Fragment = []\<rparr>),
     parseQuery = (\<lambda>q. []),
     encodeQuery = (\<lambda>q. join_str (map (\<lambda>kv. fst kv @ ''='' @ concat (snd kv)) q) ''&''),
     urlString = (\<lambda>u. if RawQuery u = [] then Path u else Path u @ ''?'' @ RawQuery u),
     pathJoin = (\<lambda>a b. a @ ''/'' @ b),
     osStat = (\<lambda>p.
       if p = ''/backup/alpha'' then StatOk
       else if p = ''/backup/locked'' then StatFailed ''permission denied''
       else StatNotExist),
     cmdRun = (\<lambda>c. if Args c = [''git'', ''clone'', GitUrl beta, ''/backup/beta'']
                     then Some ''exit status 128'' else None),
     verboseFlag = True\<rparr>"

text \<open>The same, with the connection lost at the second page.\<close>

definition outage :: world where
  "outage = demo\<lparr>httpGet := (\<lambda>u. if u = page2 then Inl ''connection reset by peer''
                                 else httpGet demo u)\<rparr>"

text \<open>The same, with a second page whose body is not JSON.\<close>

definition garbled :: world where
  "garbled = demo\<lparr>httpGet := (\<lambda>u. if u = page2
                                  then Inr \<lparr>StatusCode = 200, Body = ''<html>'', Link = [], RequestURL = u\<rparr>
                                  else httpGet demo u)\<rparr>"

text \<open>
  The same, with a first page on which the decoder stops at the second repository and
  returns an error.
\<close>

definition partly :: world where
  "partly = demo\<lparr>decodeRepos := (\<lambda>b.
     if b = ''first''
     then ([alpha], Some ''json: cannot unmarshal number into Go struct field Repo.name'')
     else decodeRepos demo b)\<rparr>"

text \<open>
  A service with three pages, whose second page names the third in the second entry of
  its Link header.
\<close>

definition delta :: Repo where
  "delta = \<lparr>Name = ''delta'', GitUrl = ''git://github.com/octo/delta.git''\<rparr>"

definition page3 :: string where
  "page3 = ''https://api.github.com/user/9/repos?page=3''"

definition three :: world where
  "three = demo\<lparr>
     httpGet := (\<lambda>u.
       if u = page2
         then Inr \<lparr>StatusCode = 200, Body = ''second'', Link = [linkPrevNext], RequestURL = u\<rparr>
       else if u = page3
         then Inr \<lparr>StatusCode = 200, Body = ''third'', Link = [linkFirstPrev], RequestURL = u\<rparr>
       else httpGet demo u),
     decodeRepos := (\<lambda>b. if b = ''third'' then ([delta], None) else decodeRepos demo b)\<rparr>"

text \<open>
  The same account as an organization, and as an account of a type the program does not
  know; a URL library that rejects every URL; a repository whose directory cannot be
  examined.
\<close>

definition org :: world where
  "org = demo\<lparr>decodeAccountType := (\<lambda>b. (''Organization'', None))\<rparr>"

definition bot :: world where
  "bot = demo\<lparr>decodeAccountType := (\<lambda>b. (''Bot'', None))\<rparr>"

definition nourl :: world where
  "nourl = demo\<lparr>urlParse := (\<lambda>s. Inl ''first path segment in URL cannot contain colon'')\<rparr>"

definition locked :: Repo where
  "locked = \<lparr>Name = ''locked'', GitUrl = ''git://github.com/octo/locked.git''\<rparr>"

section \<open>Properties\<close>

subsection \<open>Strings\<close>

lemma split_str_nonempty: "split_str s c \<noteq> []"
  by (induction s) (auto simp: Let_def)

lemma split_str_first: "c \<notin> set u \<Longrightarrow> split_str (u @ c # rest) c ! 0 = u"
  by (induction u) (auto simp: Let_def nth_Cons' hd_conv_nth split_str_nonempty)

lemma split_str_whole: "c \<notin> set u \<Longrightarrow> split_str u c ! 0 = u"
  by (induction u) (auto simp: Let_def nth_Cons' hd_conv_nth split_str_nonempty)

lemma contains_append_left: "contains s sub \<Longrightarrow> contains (p @ s) sub"
  by (induction p) auto

lemma first_entry:
  assumes "CHR '','' \<notin> set e" and "rest = [] \<or> hd rest = CHR '',''"
  shows "split_str (e @ rest) (CHR '','') ! 0 = e"
proof (cases rest)
  case Nil
  then show ?thesis using assms by (simp add: split_str_whole)
next
  case (Cons c cs)
  then show ?thesis using assms by (simp add: split_str_first)
qed

subsection \<open>The next page\<close>

text \<open>
  C2, as the specification states it, fails: the link with \<^verbatim>\<open>rel="next"\<close> is found only
  when it is the first entry. For a header value whose second entry is the next link,
  the specification's reading gives the URL of page 3 and the program ends the
  enumeration.
\<close>

theorem nextLink_second_entry_counterexample:
  "nextLink [linkPrevNext] = Inr None \<and>
   spec_next linkPrevNext = Some ''https://api.github.com/user/9/repos?page=3''"
  by (simp add: nextLink_def linkPrevNext_def relNext_def spec_next_def Let_def)

text \<open>
  C2, amended: the client reads the first comma-separated entry of the first Link header
  value and no other. When that entry is \<^verbatim>\<open><\<close>\<open>u\<close>\<^verbatim>\<open>>;\<close> followed by parameters that
  contain \<^verbatim>\<open>rel="next"\<close>, with neither a comma nor a semicolon in \<open>u\<close>, the next page is
  \<open>u\<close>, the text between the brackets. When the first entry does not contain
  \<^verbatim>\<open>rel="next"\<close>, whatever the later entries are, or when the response has no Link
  header, the page is the last one.
\<close>

theorem nextLink_first_entry:
  "(CHR '','' \<notin> set u \<and> CHR '';'' \<notin> set u \<and> CHR '','' \<notin> set params \<and>
    contains params relNext \<and> (rest = [] \<or> hd rest = CHR '','') \<longrightarrow>
      nextLink ((''<'' @ u @ ''>;'' @ params @ rest) # hs) = Inr (Some u)) \<and>
   (\<not> contains (split_str h (CHR '','') ! 0) relNext \<longrightarrow> nextLink (h # hs) = Inr None) \<and>
   nextLink [] = Inr None"
proof (intro conjI impI)
  assume a: "CHR '','' \<notin> set u \<and> CHR '';'' \<notin> set u \<and> CHR '','' \<notin> set params \<and>
    contains params relNext \<and> (rest = [] \<or> hd rest = CHR '','')"
  let ?e = "''<'' @ u @ ''>;'' @ params"
  have e: "split_str (?e @ rest) (CHR '','') ! 0 = ?e"
    using a by (intro first_entry) auto
  have c: "contains ?e relNext"
    using contains_append_left [of params relNext "''<'' @ u @ ''>;''"] a by simp
  have "split_str ((''<'' @ u @ ''>'') @ CHR '';'' # params) (CHR '';'') ! 0 = ''<'' @ u @ ''>''"
    using a by (intro split_str_first) auto
  then have b: "split_str ?e (CHR '';'') ! 0 = ''<'' @ u @ ''>''" by simp
  have s: "slice (''<'' @ u @ ''>'') 1 (int (length (''<'' @ u @ ''>'')) - 1) = Inr u"
    by (simp add: slice_def)
  show "nextLink ((''<'' @ u @ ''>;'' @ params @ rest) # hs) = Inr (Some u)"
    using e c b s by (simp add: nextLink_def Let_def)
next
  assume "\<not> contains (split_str h (CHR '','') ! 0) relNext"
  then show "nextLink (h # hs) = Inr None" by (simp add: nextLink_def Let_def)
next
  show "nextLink [] = Inr None" by (simp add: nextLink_def)
qed

theorem nextLink_first_entry_witness:
  \<open>nextLink [linkNextLast] = Inr (Some page2) \<and>
   contains '' rel="next"'' relNext \<and>
   nextLink [linkFirstPrev] = Inr None \<and>
   split_str linkFirstPrev (CHR '','') ! 0 =
     ''<https://api.github.com/user/9/repos?per_page=100&page=1>; rel="first"''\<close>
proof -
  let ?params = \<open>'' rel="next"''\<close>
  let ?rest = \<open>'', <https://api.github.com/user/9/repos?per_page=100&page=2>; rel="last"''\<close>
  have c: "contains ?params relNext"
    by (simp add: relNext_def)
  have hyp: "CHR '','' \<notin> set page2 \<and> CHR '';'' \<notin> set page2 \<and> CHR '','' \<notin> set ?params \<and>
      contains ?params relNext \<and> (?rest = [] \<or> hd ?rest = CHR '','')"
    using c by (simp add: page2_def)
  have eq: "''<'' @ page2 @ ''>;'' @ ?params @ ?rest = linkNextLast"
    by (simp add: page2_def linkNextLast_def)
  have f: \<open>split_str linkFirstPrev (CHR '','') ! 0 =
      ''<https://api.github.com/user/9/repos?per_page=100&page=1>; rel="first"''\<close>
    by (simp add: linkFirstPrev_def Let_def)
  have n: "\<not> contains (split_str linkFirstPrev (CHR '','') ! 0) relNext"
    unfolding f by (simp add: relNext_def)
  from nextLink_first_entry [of page2 ?params ?rest "[]" linkFirstPrev] hyp
  have "nextLink [''<'' @ page2 @ ''>;'' @ ?params @ ?rest] = Inr (Some page2)"
    by blast
  then have 1: "nextLink [linkNextLast] = Inr (Some page2)"
    unfolding eq .
  from nextLink_first_entry [of page2 ?params ?rest "[]" linkFirstPrev] n
  have 2: "nextLink [linkFirstPrev] = Inr None"
    by blast
  show ?thesis using 1 2 c f by blast
qed

subsection \<open>Enumeration\<close>

lemma getRepos_transport:
  "httpGet w u = Inl err \<Longrightarrow> getRepos w u = Some (Inl (TransportError err))"
  by (subst getRepos.simps) simp

lemma getRepos_status:
  "httpGet w u = Inr r \<Longrightarrow> 300 \<le> StatusCode r \<Longrightarrow>
     getRepos w u = Some (Inl (BadStatus u (StatusCode r)))"
  by (subst getRepos.simps) simp

lemma getRepos_last:
  "httpGet w u = Inr r \<Longrightarrow> StatusCode r < 300 \<Longrightarrow> nextLink (Link r) = Inr None \<Longrightarrow>
     getRepos w u = Some (Inr (fst (decodeRepos w (Body r))))"
  by (subst getRepos.simps) simp

lemma getRepos_next:
  "httpGet w u = Inr r \<Longrightarrow> StatusCode r < 300 \<Longrightarrow> nextLink (Link r) = Inr (Some n) \<Longrightarrow>
     getRepos w u = Option.bind (getRepos w n)
       (\<lambda>rest. Some (case rest of Inl p \<Rightarrow> Inl p
                     | Inr others \<Rightarrow> Inr (fst (decodeRepos w (Body r)) @ others)))"
  by (subst getRepos.simps) simp

lemma split_str_takeWhile: "split_str s c ! 0 = takeWhile (\<lambda>x. x \<noteq> c) s"
  by (induction s) (auto simp: Let_def hd_conv_nth split_str_nonempty)

lemma nextLink_first_next:
  assumes "first_next r = Some n"
  shows "nextLink (Link r) = Inr (Some n)"
proof -
  from assms obtain h hs where l: "Link r = h # hs"
    by (cases "Link r") (simp_all add: first_next_def)
  with assms have c: "contains (first_entry h) relNext"
    and b: "takeWhile (\<lambda>c. c \<noteq> CHR '';'') (first_entry h) = ''<'' @ n @ ''>''"
    by (auto simp: first_next_def split: option.splits if_splits)
  have f: "split_str h (CHR '','') ! 0 = first_entry h"
    by (simp add: split_str_takeWhile first_entry_def)
  have u: "split_str (first_entry h) (CHR '';'') ! 0 = ''<'' @ n @ ''>''"
    using b by (simp add: split_str_takeWhile)
  have s: "slice (''<'' @ n @ ''>'') 1 (int (length (''<'' @ n @ ''>'')) - 1) = Inr n"
    by (simp add: slice_def)
  show ?thesis
    using l c f u s by (simp add: nextLink_def Let_def)
qed

lemma nextLink_first_silent: "first_silent r \<Longrightarrow> nextLink (Link r) = Inr None"
  by (cases "Link r")
    (simp_all add: first_silent_def nextLink_def Let_def split_str_takeWhile first_entry_def)

lemma getRepos_pages: "pages_first w u ps \<Longrightarrow> getRepos w u = Some (Inr (concat ps))"
proof (induction w u ps rule: pages_first.induct)
  case (1 w u)
  then show ?case by simp
next
  case (2 w u p)
  then show ?case
    by (auto simp: getRepos_last nextLink_first_silent split: sum.splits)
next
  case (3 w u p q ps)
  from "3.prems" obtain r n where r: "httpGet w u = Inr r" "StatusCode r < 300"
      "fst (decodeRepos w (Body r)) = p" "first_next r = Some n"
      "pages_first w n (q # ps)"
    by (auto split: sum.splits option.splits)
  from "3.IH" [OF r(1,4,5)]
  have "getRepos w n = Some (Inr (concat (q # ps)))" .
  with r(3) show ?case
    by (simp add: getRepos_next [OF r(1,2) nextLink_first_next [OF r(4)]])
qed

lemma getRepos_fails: "fails_after w u k \<Longrightarrow> \<exists>p. getRepos w u = Some (Inl p)"
proof (induction k arbitrary: u)
  case 0
  then show ?case
    by (cases "httpGet w u") (auto simp: getRepos_transport getRepos_status)
next
  case (Suc k)
  from Suc.prems obtain r n where r: "httpGet w u = Inr r" "StatusCode r < 300"
      "first_next r = Some n" "fails_after w n k"
    by (auto split: sum.splits option.splits)
  from Suc.IH [OF r(4)] obtain p where "getRepos w n = Some (Inl p)" by blast
  then show ?case
    by (simp add: getRepos_next [OF r(1,2) nextLink_first_next [OF r(3)]])
qed

lemma main_getRepos_panic:
  "getCategory w name = Inr category \<Longrightarrow>
   setMaxPageSize w (firstPage category name) = Inr u \<Longrightarrow>
   getRepos w u = Some (Inl p) \<Longrightarrow> main w [name, backupDir] = Some (Inl (Panicked p))"
  by (simp add: main_def parseArgs_def)

lemma getCategory_range: "getCategory w name = Inr c \<Longrightarrow> c = ''users'' \<or> c = ''orgs''"
  by (auto simp: getCategory_def Let_def split: sum.splits if_splits)

lemma main_getRepos_dispatch:
  assumes "getCategory w name = Inr category"
    and "setMaxPageSize w (firstPage category name) = Inr u"
    and "getRepos w u = Some (Inr repos)"
  shows "main w [name, backupDir] =
    Some (Inr (dispatch maxWorkers backupDir repos
      (verbose w [S ''Backup for'', S (butlast category), S name, S ''with'',
         I (int (length repos)), S ''repositories''])))"
proof -
  from getCategory_range [OF assms(1)]
  have "slice category 0 (int (length category) - 1) = Inr (butlast category)"
    by (auto simp: slice_def)
  with assms show ?thesis
    by (simp add: main_def parseArgs_def)
qed

lemma demo_pages: "pages_first demo page1 [[alpha, beta], [gamma]]"
  by code_simp

text \<open>
  C4, as the specification states it, fails: a next page is followed only when the first
  entry of the Link header names it. The service of the sample has three pages with two,
  one and one repositories; its second page names the third in the second entry of the
  header, and the enumerator returns the three repositories of the first two pages.
\<close>

theorem getRepos_later_entry_counterexample:
  "spec_pages three page1 [[alpha, beta], [gamma], [delta]] \<and>
   getRepos three page1 = Some (Inr [alpha, beta, gamma])"
  by code_simp

text \<open>
  C4, amended: when each page but the last names the next page in the first entry of its
  Link header, and the first entry of the last page's header names none, the enumerator
  returns, and what it returns is the pages' repositories one page after the other, in
  the order fetched, as many as the sizes of the pages add up to. A page that names its
  next page in a later entry only is such a last page: the enumeration ends with it.
  An empty first page whose first entry names no next page gives the empty list and no
  error.
\<close>

theorem getRepos_concat_first:
  "pages_first w u ps \<Longrightarrow>
     getRepos w u = Some (Inr (concat ps)) \<and>
     length (concat ps) = sum_list (map length ps) \<and>
     (ps = [[]] \<longrightarrow> getRepos w u = Some (Inr []))"
  using getRepos_pages [of w u ps] by (auto simp: length_concat)

theorem getRepos_concat_first_witness:
  "pages_first demo page1 [[alpha, beta], [gamma]] \<and>
   spec_pages demo page1 [[alpha, beta], [gamma]] \<and>
   getRepos demo page1 = Some (Inr [alpha, beta, gamma]) \<and>
   pages_first demo ''https://api.github.com/users/void/repos?per_page=100'' [[]] \<and>
   getRepos demo ''https://api.github.com/users/void/repos?per_page=100'' = Some (Inr []) \<and>
   pages_first three page1 [[alpha, beta], [gamma]] \<and>
   getRepos three page1 = Some (Inr [alpha, beta, gamma])"
proof -
  have s: "spec_pages demo page1 [[alpha, beta], [gamma]]"
    by code_simp
  have e: "pages_first demo ''https://api.github.com/users/void/repos?per_page=100'' [[]]"
    by code_simp
  have t: "pages_first three page1 [[alpha, beta], [gamma]]"
    by code_simp
  show ?thesis
    using demo_pages getRepos_concat_first [OF demo_pages] s e getRepos_concat_first [OF e]
      t getRepos_concat_first [OF t]
    by simp
qed

text \<open>
  C3, as the specification states it, fails: the error of \<^verbatim>\<open>Decode\<close> is not looked at.
  The second page of the sample answers with status 200 and a body that is not JSON; the
  decoder reports an error, and the enumeration returns the first page's repositories,
  which \<^verbatim>\<open>main\<close> hands to the workers.
\<close>

theorem getRepos_decode_counterexample:
  "httpGet garbled page2 = Inr \<lparr>StatusCode = 200, Body = ''<html>'', Link = [], RequestURL = page2\<rparr> \<and>
   snd (decodeRepos garbled ''<html>'') =
     Some ''invalid character looking for beginning of value'' \<and>
   getRepos garbled page1 = Some (Inr [alpha, beta]) \<and>
   main garbled [''octo'', ''/backup''] =
     Some (Inr (dispatch maxWorkers ''/backup'' [alpha, beta]
       [Logged [S ''Backup for'', S ''user'', S ''octo'', S ''with'', I 2,
                S ''repositories'']]))"
  by code_simp

text \<open>
  C3, amended: on every page fetch a transport failure or a status code of 300 or more
  is a panic. It ends the enumeration without a repository list, also when pages were
  fetched before it, and it ends \<^verbatim>\<open>main\<close> before any worker is started. A status code
  below 300 is accepted, and the error of the decoder is not checked on any page: a last
  page contributes whatever the decoder left in \<^verbatim>\<open>repos\<close>, a page that names a next page
  contributes it in front of what the enumeration from the next page returns, and
  \<^verbatim>\<open>main\<close> starts the workers on the list the enumeration returns.
\<close>

theorem getRepos_fatal:
  "(httpGet w u = Inl err \<longrightarrow> getRepos w u = Some (Inl (TransportError err))) \<and>
   (httpGet w u = Inr r \<and> 300 \<le> StatusCode r \<longrightarrow>
      getRepos w u = Some (Inl (BadStatus u (StatusCode r)))) \<and>
   (fails_after w u k \<longrightarrow> (\<exists>p. getRepos w u = Some (Inl p))) \<and>
   (getCategory w name = Inr category \<and>
    setMaxPageSize w (firstPage category name) = Inr u \<and> fails_after w u k \<longrightarrow>
      (\<exists>p. main w [name, backupDir] = Some (Inl (Panicked p)))) \<and>
   (getCategory w name = Inr category \<and>
    setMaxPageSize w (firstPage category name) = Inr u \<and> getRepos w u = Some (Inl p) \<longrightarrow>
      main w [name, backupDir] = Some (Inl (Panicked p))) \<and>
   (httpGet w u = Inr r \<and> StatusCode r < 300 \<and> nextLink (Link r) = Inr None \<longrightarrow>
      getRepos w u = Some (Inr (fst (decodeRepos w (Body r))))) \<and>
   (httpGet w u = Inr r \<and> StatusCode r < 300 \<and> nextLink (Link r) = Inr (Some n) \<longrightarrow>
      getRepos w u =
        (case getRepos w n of
           None \<Rightarrow> None
         | Some (Inl q) \<Rightarrow> Some (Inl q)
         | Some (Inr others) \<Rightarrow> Some (Inr (fst (decodeRepos w (Body r)) @ others)))) \<and>
   (getCategory w name = Inr category \<and>
    setMaxPageSize w (firstPage category name) = Inr u \<and> getRepos w u = Some (Inr repos) \<longrightarrow>
      main w [name, backupDir] =
        Some (Inr (dispatch maxWorkers backupDir repos
          (verbose w [S ''Backup for'', S (butlast category), S name, S ''with'',
             I (int (length repos)), S ''repositories'']))))"
proof (intro conjI impI)
  assume "httpGet w u = Inr r \<and> StatusCode r < 300 \<and> nextLink (Link r) = Inr (Some n)"
  then show "getRepos w u =
      (case getRepos w n of
         None \<Rightarrow> None
       | Some (Inl q) \<Rightarrow> Some (Inl q)
       | Some (Inr others) \<Rightarrow> Some (Inr (fst (decodeRepos w (Body r)) @ others)))"
    by (simp add: getRepos_next split: option.splits sum.splits)
next
  assume "getCategory w name = Inr category \<and>
    setMaxPageSize w (firstPage category name) = Inr u \<and> getRepos w u = Some (Inr repos)"
  then show "main w [name, backupDir] =
        Some (Inr (dispatch maxWorkers backupDir repos
          (verbose w [S ''Backup for'', S (butlast category), S name, S ''with'',
             I (int (length repos)), S ''repositories''])))"
    by (simp add: main_getRepos_dispatch)
next
  assume "getCategory w name = Inr category \<and>
    setMaxPageSize w (firstPage category name) = Inr u \<and> fails_after w u k"
  then show "\<exists>p. main w [name, backupDir] = Some (Inl (Panicked p))"
    using getRepos_fails [of w u k] by (auto simp: main_getRepos_panic)
qed (auto simp: getRepos_transport getRepos_status getRepos_last main_getRepos_panic
    getRepos_fails)

theorem getRepos_fatal_witness:
  "httpGet outage page2 = Inl ''connection reset by peer'' \<and>
   getRepos outage page2 = Some (Inl (TransportError ''connection reset by peer'')) \<and>
   getRepos demo ''https://api.github.com/users/nobody/repos?per_page=100'' =
     Some (Inl (BadStatus ''https://api.github.com/users/nobody/repos?per_page=100'' 404)) \<and>
   fails_after outage page1 (Suc 0) \<and>
   (\<exists>p. getRepos outage page1 = Some (Inl p)) \<and>
   (\<exists>p. main outage [''octo'', ''/backup''] = Some (Inl (Panicked p))) \<and>
   main outage [''octo'', ''/backup''] =
     Some (Inl (Panicked (TransportError ''connection reset by peer''))) \<and>
   getRepos garbled page2 = Some (Inr []) \<and>
   snd (decodeRepos partly ''first'') =
     Some ''json: cannot unmarshal number into Go struct field Repo.name'' \<and>
   getRepos partly page1 = Some (Inr [alpha, gamma]) \<and>
   main partly [''octo'', ''/backup''] =
     Some (Inr (dispatch maxWorkers ''/backup'' [alpha, gamma]
       [Logged [S ''Backup for'', S ''user'', S ''octo'', S ''with'', I 2,
                S ''repositories'']]))"
proof -
  let ?nobody = "''https://api.github.com/users/nobody/repos?per_page=100''"
  let ?r404 = "\<lparr>StatusCode = 404, Body = [], Link = [], RequestURL = ?nobody\<rparr>"
  let ?html = "\<lparr>StatusCode = 200, Body = ''<html>'', Link = [], RequestURL = page2\<rparr>"
  let ?first = "\<lparr>StatusCode = 200, Body = ''first'', Link = [linkNextLast],
                 RequestURL = page1\<rparr>"
  let ?reset = "TransportError ''connection reset by peer''"
  have t: "httpGet outage page2 = Inl ''connection reset by peer''"
    by (simp add: outage_def)
  have s: "httpGet demo ?nobody = Inr ?r404 \<and> 300 \<le> StatusCode ?r404"
    by (simp add: demo_def page1_def page2_def)
  have f: "fails_after outage page1 (Suc 0)"
    by code_simp
  have m: "getCategory outage ''octo'' = Inr ''users'' \<and>
      setMaxPageSize outage (firstPage ''users'' ''octo'') = Inr page1"
    by code_simp
  have g: "httpGet garbled page2 = Inr ?html \<and> StatusCode ?html < 300 \<and>
      nextLink (Link ?html) = Inr None"
    by (simp add: garbled_def nextLink_def)
  have d: "fst (decodeRepos garbled (Body ?html)) = []"
    by (simp add: garbled_def demo_def)
  have e: "snd (decodeRepos partly ''first'') =
      Some ''json: cannot unmarshal number into Go struct field Repo.name''"
    by (simp add: partly_def)
  have h: "httpGet partly page1 = Inr ?first \<and> StatusCode ?first < 300 \<and>
      nextLink (Link ?first) = Inr (Some page2) \<and>
      fst (decodeRepos partly (Body ?first)) = [alpha]"
    by code_simp
  have l: "httpGet partly page2 =
        Inr \<lparr>StatusCode = 200, Body = ''second'', Link = [linkFirstPrev], RequestURL = page2\<rparr> \<and>
      nextLink [linkFirstPrev] = Inr None \<and> fst (decodeRepos partly ''second'') = [gamma]"
    by code_simp
  have c: "getCategory partly ''octo'' = Inr ''users'' \<and>
      setMaxPageSize partly (firstPage ''users'' ''octo'') = Inr page1 \<and> verboseFlag partly"
    by code_simp
  from getRepos_fatal [of outage page2 "''connection reset by peer''" ?r404 0 "[]" "[]" "[]"] t
  have 1: "getRepos outage page2 = Some (Inl ?reset)"
    by blast
  from getRepos_fatal [of demo ?nobody "[]" ?r404 0 "[]" "[]" "[]"] s
  have 2: "getRepos demo ?nobody = Some (Inl (BadStatus ?nobody 404))"
    by simp
  from getRepos_fatal [of outage page1 "[]" ?r404 "Suc 0" "''octo''" "''users''" "''/backup''"]
    m f
  have 3: "(\<exists>p. getRepos outage page1 = Some (Inl p)) \<and>
      (\<exists>p. main outage [''octo'', ''/backup''] = Some (Inl (Panicked p)))"
    by blast
  have o: "httpGet outage page1 = Inr ?first \<and> StatusCode ?first < 300 \<and>
      nextLink (Link ?first) = Inr (Some page2)"
    by code_simp
  from getRepos_fatal [of outage page1 "[]" ?first 0 "[]" "[]" "[]" SliceBounds page2] o 1
  have 5: "getRepos outage page1 = Some (Inl ?reset)"
    by simp
  from getRepos_fatal [of outage page1 "[]" ?r404 0 "''octo''" "''users''" "''/backup''" ?reset]
    m 5
  have 6: "main outage [''octo'', ''/backup''] = Some (Inl (Panicked ?reset))"
    by blast
  from getRepos_fatal [of garbled page2 "[]" ?html 0 "[]" "[]" "[]"] g d
  have 4: "getRepos garbled page2 = Some (Inr [])"
    by simp
  from getRepos_fatal [of partly page2
      "[]" "\<lparr>StatusCode = 200, Body = ''second'', Link = [linkFirstPrev], RequestURL = page2\<rparr>"
      0 "[]" "[]" "[]"] l
  have 7: "getRepos partly page2 = Some (Inr [gamma])"
    by simp
  from getRepos_fatal [of partly page1 "[]" ?first 0 "[]" "[]" "[]" SliceBounds page2] h 7
  have 8: "getRepos partly page1 = Some (Inr [alpha, gamma])"
    by simp
  from getRepos_fatal [of partly page1 "[]" ?r404 0 "''octo''" "''users''" "''/backup''"
      SliceBounds page2 "[alpha, gamma]"] c 8
  have 9: "main partly [''octo'', ''/backup''] =
     Some (Inr (dispatch maxWorkers ''/backup'' [alpha, gamma]
       [Logged [S ''Backup for'', S ''user'', S ''octo'', S ''with'', I 2,
                S ''repositories'']]))"
    by (simp add: verbose_def)
  show ?thesis using t 1 2 f 3 6 4 e 8 9 by blast
qed

subsection \<open>The account's type\<close>

lemma accountUrl: "join_str [githubApi, ''users'', name] ''/'' = ''https://api.github.com/users/'' @ name"
  by (simp add: githubApi_def)

text \<open>
  C7: when the lookup of the account succeeds with a status below 300 and the decoded
  type is "User", the classifier selects the path segment "users"; when it is
  "Organization", it selects "orgs"; for any other type it panics, and \<^verbatim>\<open>main\<close>
  ends with that panic before anything is enumerated.
\<close>

theorem getCategory_by_type:
  "httpGet w (''https://api.github.com/users/'' @ name) = Inr r \<and> StatusCode r < 300 \<and>
   fst (decodeAccountType w (Body r)) = t \<Longrightarrow>
     (t = ''User'' \<longrightarrow> getCategory w name = Inr ''users'' \<and>
        firstPage ''users'' name = ''https://api.github.com/users/'' @ name @ ''/repos'') \<and>
     (t = ''Organization'' \<longrightarrow> getCategory w name = Inr ''orgs'' \<and>
        firstPage ''orgs'' name = ''https://api.github.com/orgs/'' @ name @ ''/repos'') \<and>
     (t \<noteq> ''User'' \<and> t \<noteq> ''Organization'' \<longrightarrow>
        getCategory w name = Inl (UnknownAccountType t name) \<and>
        main w [name, backupDir] = Some (Inl (Panicked (UnknownAccountType t name))))"
  by (auto simp: getCategory_def accountUrl Let_def firstPage_def githubApi_def main_def parseArgs_def)

theorem getCategory_by_type_witness:
  "getCategory demo ''octo'' = Inr ''users'' \<and>
   firstPage ''users'' ''octo'' = ''https://api.github.com/users/octo/repos'' \<and>
   getCategory org ''octo'' = Inr ''orgs'' \<and>
   firstPage ''orgs'' ''octo'' = ''https://api.github.com/orgs/octo/repos'' \<and>
   getCategory bot ''octo'' = Inl (UnknownAccountType ''Bot'' ''octo'') \<and>
   main bot [''octo'', ''/backup''] = Some (Inl (Panicked (UnknownAccountType ''Bot'' ''octo'')))"
proof -
  let ?r = "\<lparr>StatusCode = 200, Body = ''account'', Link = [],
           RequestURL = ''https://api.github.com/users/octo''\<rparr>"
  have u: "httpGet demo (''https://api.github.com/users/'' @ ''octo'') = Inr ?r \<and>
      StatusCode ?r < 300 \<and> fst (decodeAccountType demo (Body ?r)) = ''User''"
    by (simp add: demo_def)
  have o: "httpGet org (''https://api.github.com/users/'' @ ''octo'') = Inr ?r \<and>
      StatusCode ?r < 300 \<and> fst (decodeAccountType org (Body ?r)) = ''Organization''"
    by (simp add: org_def demo_def)
  have b: "httpGet bot (''https://api.github.com/users/'' @ ''octo'') = Inr ?r \<and>
      StatusCode ?r < 300 \<and> fst (decodeAccountType bot (Body ?r)) = ''Bot''"
    by (simp add: bot_def demo_def)
  show ?thesis
    using getCategory_by_type [OF u, of "''/backup''"] getCategory_by_type [OF o, of "''/backup''"]
      getCategory_by_type [OF b, of "''/backup''"]
    by simp
qed

subsection \<open>The page size\<close>

lemma map_of_values_Set:
  "map_of (values_Set q key v) k = (if k = key then Some [v] else map_of q k)"
  by (induction q) (auto simp: values_Set_def)

text \<open>
  C9: for every URL that parses, \<^verbatim>\<open>setMaxPageSize\<close> returns the URL with its query
  replaced by the encoding of a query in which \<^verbatim>\<open>per_page\<close> is 100 and every other
  key is as it was; a URL that does not parse is a panic, which ends \<^verbatim>\<open>main\<close>. The URL
  \<^verbatim>\<open>main\<close> enumerates from is the first page's URL after \<^verbatim>\<open>setMaxPageSize\<close>.
\<close>

theorem setMaxPageSize_per_page:
  "(urlParse w rawUrl = Inr u \<longrightarrow>
      (\<exists>q. setMaxPageSize w rawUrl = Inr (urlString w (u\<lparr>RawQuery := encodeQuery w q\<rparr>)) \<and>
           map_of q ''per_page'' = Some [''100''] \<and> values_Get q ''per_page'' = ''100'' \<and>
           (\<forall>k. k \<noteq> ''per_page'' \<longrightarrow> map_of q k = map_of (parseQuery w (RawQuery u)) k))) \<and>
   (urlParse w rawUrl = Inl err \<longrightarrow> setMaxPageSize w rawUrl = Inl (UrlParseError err)) \<and>
   (getCategory w name = Inr category \<and>
    setMaxPageSize w (firstPage category name) = Inl p \<longrightarrow>
      main w [name, backupDir] = Some (Inl (Panicked p))) \<and>
   (getCategory w name = Inr category \<and>
    setMaxPageSize w (firstPage category name) = Inr pu \<longrightarrow>
      main w [name, backupDir] =
        Option.bind (getRepos w pu)
          (\<lambda>res. case res of
                   Inl p \<Rightarrow> Some (Inl (Panicked p))
                 | Inr repos \<Rightarrow>
                     Some (Inr (dispatch maxWorkers backupDir repos
                       (verbose w [S ''Backup for'', S (butlast category), S name, S ''with'',
                          I (int (length repos)), S ''repositories''])))))"
proof (intro conjI impI)
  assume p: "urlParse w rawUrl = Inr u"
  let ?q = "values_Set (parseQuery w (RawQuery u)) ''per_page'' ''100''"
  have "setMaxPageSize w rawUrl = Inr (urlString w (u\<lparr>RawQuery := encodeQuery w ?q\<rparr>))"
    using p by (simp add: setMaxPageSize_def)
  moreover have "map_of ?q ''per_page'' = Some [''100'']"
    by (simp add: map_of_values_Set)
  moreover have "values_Get ?q ''per_page'' = ''100''"
    by (simp add: values_Get_def map_of_values_Set)
  moreover have "\<forall>k. k \<noteq> ''per_page'' \<longrightarrow> map_of ?q k = map_of (parseQuery w (RawQuery u)) k"
    by (simp add: map_of_values_Set)
  ultimately show "\<exists>q. setMaxPageSize w rawUrl = Inr (urlString w (u\<lparr>RawQuery := encodeQuery w q\<rparr>)) \<and>
           map_of q ''per_page'' = Some [''100''] \<and> values_Get q ''per_page'' = ''100'' \<and>
           (\<forall>k. k \<noteq> ''per_page'' \<longrightarrow> map_of q k = map_of (parseQuery w (RawQuery u)) k)"
    by blast
next
  assume "urlParse w rawUrl = Inl err"
  then show "setMaxPageSize w rawUrl = Inl (UrlParseError err)"
    by (simp add: setMaxPageSize_def)
next
  assume "getCategory w name = Inr category \<and> setMaxPageSize w (firstPage category name) = Inl p"
  then show "main w [name, backupDir] = Some (Inl (Panicked p))"
    by (simp add: main_def parseArgs_def)
next
  assume a: "getCategory w name = Inr category \<and>
    setMaxPageSize w (firstPage category name) = Inr pu"
  then have c: "category = ''users'' \<or> category = ''orgs''"
    using getCategory_range by blast
  then have "slice category 0 (int (length category) - 1) = Inr (butlast category)"
    by (auto simp: slice_def)
  with a show "main w [name, backupDir] =
        Option.bind (getRepos w pu)
          (\<lambda>res. case res of
                   Inl p \<Rightarrow> Some (Inl (Panicked p))
                 | Inr repos \<Rightarrow>
                     Some (Inr (dispatch maxWorkers backupDir repos
                       (verbose w [S ''Backup for'', S (butlast category), S name, S ''with'',
                          I (int (length repos)), S ''repositories'']))))"
    by (simp add: main_def parseArgs_def)
qed

theorem setMaxPageSize_per_page_witness:
  "urlParse demo ''https://api.github.com/users/octo/repos'' =
     Inr \<lparr>Scheme = [], Host = [], Path = ''https://api.github.com/users/octo/repos'',
          RawQuery = [], Fragment = []\<rparr> \<and>
   (\<exists>q. setMaxPageSize demo ''https://api.github.com/users/octo/repos'' =
          Inr (urlString demo
            \<lparr>Scheme = [], Host = [], Path = ''https://api.github.com/users/octo/repos'',
             RawQuery = encodeQuery demo q, Fragment = []\<rparr>) \<and>
        values_Get q ''per_page'' = ''100'') \<and>
   setMaxPageSize demo ''https://api.github.com/users/octo/repos'' = Inr page1 \<and>
   setMaxPageSize nourl ''https://api.github.com/users/octo/repos'' =
     Inl (UrlParseError ''first path segment in URL cannot contain colon'') \<and>
   main nourl [''octo'', ''/backup''] =
     Some (Inl (Panicked (UrlParseError ''first path segment in URL cannot contain colon''))) \<and>
   main demo [''octo'', ''/backup''] =
     Some (Inr (dispatch maxWorkers ''/backup'' [alpha, beta, gamma]
       [Logged [S ''Backup for'', S ''user'', S ''octo'', S ''with'', I 3,
                S ''repositories'']]))"
proof -
  let ?raw = "''https://api.github.com/users/octo/repos''"
  let ?u = "\<lparr>Scheme = [], Host = [], Path = ?raw, RawQuery = [], Fragment = []\<rparr>"
  let ?e = "''first path segment in URL cannot contain colon''"
  have fp: "firstPage ''users'' ''octo'' = ?raw"
    by (simp add: firstPage_def githubApi_def)
  have a: "urlParse demo ?raw = Inr ?u"
    by (simp add: demo_def)
  have b: "urlParse nourl ?raw = Inl ?e"
    by (simp add: nourl_def)
  have v: "setMaxPageSize demo ?raw = Inr page1"
    by code_simp
  have c: "getCategory nourl ''octo'' = Inr ''users'' \<and>
      setMaxPageSize nourl (firstPage ''users'' ''octo'') = Inl (UrlParseError ?e)"
    by code_simp
  have d: "getCategory demo ''octo'' = Inr ''users'' \<and>
      setMaxPageSize demo (firstPage ''users'' ''octo'') = Inr page1"
    by code_simp
  have g: "getRepos demo page1 = Some (Inr [alpha, beta, gamma])"
    using getRepos_pages [OF demo_pages] by simp
  have f: "verboseFlag demo"
    by (simp add: demo_def)
  from setMaxPageSize_per_page [of demo ?raw ?u ?e "[]" "[]" SliceBounds "[]" "[]"] a
  have 1: "\<exists>q. setMaxPageSize demo ?raw = Inr (urlString demo (?u\<lparr>RawQuery := encodeQuery demo q\<rparr>)) \<and>
      values_Get q ''per_page'' = ''100''"
    by blast
  from setMaxPageSize_per_page [of nourl ?raw ?u ?e "''octo''" "''users''" "UrlParseError ?e"
      "''/backup''" "[]"] b c
  have 2: "setMaxPageSize nourl ?raw = Inl (UrlParseError ?e) \<and>
      main nourl [''octo'', ''/backup''] = Some (Inl (Panicked (UrlParseError ?e)))"
    by blast
  from setMaxPageSize_per_page [of demo ?raw ?u ?e "''octo''" "''users''" SliceBounds
      "''/backup''" page1] d
  have "main demo [''octo'', ''/backup''] =
        Option.bind (getRepos demo page1)
          (\<lambda>res. case res of
                   Inl p \<Rightarrow> Some (Inl (Panicked p))
                 | Inr repos \<Rightarrow>
                     Some (Inr (dispatch maxWorkers ''/backup'' repos
                       (verbose demo [S ''Backup for'', S (butlast ''users''), S ''octo'', S ''with'',
                          I (int (length repos)), S ''repositories'']))))"
    by blast
  then have 3: "main demo [''octo'', ''/backup''] =
     Some (Inr (dispatch maxWorkers ''/backup'' [alpha, beta, gamma]
       [Logged [S ''Backup for'', S ''user'', S ''octo'', S ''with'', I 3,
                S ''repositories'']]))"
    using g f by (simp add: verbose_def)
  show ?thesis using a 1 v 2 3 by simp
qed

subsection \<open>One repository\<close>

lemma exec_crashed: "crashed s \<noteq> None \<Longrightarrow> exec w sched s = s"
  by (induction sched) (auto simp: step_def)

text \<open>
  C6: the local path is the backup directory joined with the repository's name. When
  it exists, the worker runs \<^verbatim>\<open>git pull\<close> with that path as working directory; when it
  does not exist, the worker runs \<^verbatim>\<open>git clone\<close> of the repository's URL into that path.
  So does a worker of the pool that takes the repository from the queue.
\<close>

theorem updateRepo_pull_or_clone:
  "(osStat w (pathJoin w backupDir (Name repo)) = StatOk \<longrightarrow>
      updateRepo w backupDir repo =
        Inr ([Exec \<lparr>Args = [''git'', ''pull''], Dir = pathJoin w backupDir (Name repo)\<rparr>] @
             report (cmdRun w \<lparr>Args = [''git'', ''pull''],
                              Dir = pathJoin w backupDir (Name repo)\<rparr>) @
             verbose w [S ''Updated repository:'', S (Name repo)])) \<and>
   (osStat w (pathJoin w backupDir (Name repo)) = StatNotExist \<longrightarrow>
      updateRepo w backupDir repo =
        Inr ([Exec \<lparr>Args = [''git'', ''clone'', GitUrl repo, pathJoin w backupDir (Name repo)],
                   Dir = []\<rparr>] @
             report (cmdRun w \<lparr>Args = [''git'', ''clone'', GitUrl repo,
                                      pathJoin w backupDir (Name repo)], Dir = []\<rparr>) @
             verbose w [S ''Cloned  repository:'', S (Name repo)])) \<and>
   (crashed s = None \<and> i < length (ws s) \<and> ws s ! i = Idle \<and> queue s = repo # rest \<and>
    osStat w (pathJoin w (dir s) (Name repo)) = StatOk \<longrightarrow>
      out (step w i s) =
        out s @ [Exec \<lparr>Args = [''git'', ''pull''], Dir = pathJoin w (dir s) (Name repo)\<rparr>]) \<and>
   (crashed s = None \<and> i < length (ws s) \<and> ws s ! i = Idle \<and> queue s = repo # rest \<and>
    osStat w (pathJoin w (dir s) (Name repo)) = StatNotExist \<longrightarrow>
      out (step w i s) =
        out s @ [Exec \<lparr>Args = [''git'', ''clone'', GitUrl repo,
                               pathJoin w (dir s) (Name repo)], Dir = []\<rparr>])"
  by (simp add: updateRepo_def prepare_def exists_def Command_def step_def Let_def)

theorem updateRepo_pull_or_clone_witness:
  "osStat demo (pathJoin demo ''/backup'' (Name alpha)) = StatOk \<and>
   updateRepo demo ''/backup'' alpha =
     Inr [Exec \<lparr>Args = [''git'', ''pull''], Dir = ''/backup/alpha''\<rparr>,
          Logged [S ''Updated repository:'', S ''alpha'']] \<and>
   osStat demo (pathJoin demo ''/backup'' (Name gamma)) = StatNotExist \<and>
   updateRepo demo ''/backup'' gamma =
     Inr [Exec \<lparr>Args = [''git'', ''clone'', ''git://github.com/octo/gamma.git'',
                       ''/backup/gamma''], Dir = []\<rparr>,
          Logged [S ''Cloned  repository:'', S ''gamma'']] \<and>
   out (step demo 0 (dispatch maxWorkers ''/backup'' [alpha, gamma] [])) =
     [Exec \<lparr>Args = [''git'', ''pull''], Dir = ''/backup/alpha''\<rparr>] \<and>
   out (step demo 0 (dispatch maxWorkers ''/backup'' [gamma] [])) =
     [Exec \<lparr>Args = [''git'', ''clone'', ''git://github.com/octo/gamma.git'',
                    ''/backup/gamma''], Dir = []\<rparr>]"
proof -
  let ?s = "dispatch maxWorkers ''/backup'' [alpha, gamma] []"
  let ?t = "dispatch maxWorkers ''/backup'' [gamma] []"
  note defs = demo_def alpha_def gamma_def beta_def dispatch_def workers_def maxWorkers_def
    report_def verbose_def
  have a: "osStat demo (pathJoin demo ''/backup'' (Name alpha)) = StatOk"
    by (simp add: defs)
  have g: "osStat demo (pathJoin demo ''/backup'' (Name gamma)) = StatNotExist"
    by (simp add: defs)
  from updateRepo_pull_or_clone [of demo "''/backup''" alpha ?s 0 "[gamma]"]
  have 1: "updateRepo demo ''/backup'' alpha =
     Inr [Exec \<lparr>Args = [''git'', ''pull''], Dir = ''/backup/alpha''\<rparr>,
          Logged [S ''Updated repository:'', S ''alpha'']] \<and>
     out (step demo 0 ?s) = [Exec \<lparr>Args = [''git'', ''pull''], Dir = ''/backup/alpha''\<rparr>]"
    by (simp add: defs)
  from updateRepo_pull_or_clone [of demo "''/backup''" gamma ?t 0 "[]"]
  have 2: "updateRepo demo ''/backup'' gamma =
     Inr [Exec \<lparr>Args = [''git'', ''clone'', ''git://github.com/octo/gamma.git'',
                       ''/backup/gamma''], Dir = []\<rparr>,
          Logged [S ''Cloned  repository:'', S ''gamma'']] \<and>
     out (step demo 0 ?t) =
     [Exec \<lparr>Args = [''git'', ''clone'', ''git://github.com/octo/gamma.git'',
                    ''/backup/gamma''], Dir = []\<rparr>]"
    by (simp add: defs)
  show ?thesis using a g 1 2 by blast
qed

text \<open>
  C8: "does not exist" is the answer \<^verbatim>\<open>false\<close> of the existence check, after which the
  repository is cloned. Any other error of the check is a panic: \<^verbatim>\<open>updateRepo\<close> runs no
  command, and the process of the worker that met it ends with status 2, whatever the
  other workers were about to do.
\<close>

theorem exists_stat_failure:
  "(osStat w p = StatNotExist \<longrightarrow> exists w p = Inr False) \<and>
   (osStat w p = StatFailed err \<longrightarrow> exists w p = Inl (StatError err)) \<and>
   (osStat w (pathJoin w backupDir (Name repo)) = StatFailed err \<longrightarrow>
      updateRepo w backupDir repo = Inl (StatError err)) \<and>
   (crashed s = None \<and> i < length (ws s) \<and> ws s ! i = Idle \<and> queue s = repo # rest \<and>
    osStat w (pathJoin w (dir s) (Name repo)) = StatFailed err \<longrightarrow>
      crashed (exec w sched (step w i s)) = Some (StatError err) \<and>
      exit_status (exec w sched (step w i s)) = Some 2 \<and>
      out (exec w sched (step w i s)) = out s \<and>
      ws (exec w sched (step w i s)) = ws s)"
proof (intro conjI impI)
  assume a: "crashed s = None \<and> i < length (ws s) \<and> ws s ! i = Idle \<and> queue s = repo # rest \<and>
    osStat w (pathJoin w (dir s) (Name repo)) = StatFailed err"
  then have st: "step w i s = s\<lparr>queue := rest, crashed := Some (StatError err)\<rparr>"
    by (simp add: step_def prepare_def exists_def Let_def)
  have ex: "exec w sched (step w i s) = step w i s"
    by (rule exec_crashed) (simp add: st)
  show "crashed (exec w sched (step w i s)) = Some (StatError err)"
    and "exit_status (exec w sched (step w i s)) = Some 2"
    and "out (exec w sched (step w i s)) = out s"
    and "ws (exec w sched (step w i s)) = ws s"
    unfolding ex by (simp_all add: st exit_status_def)
qed (simp_all add: exists_def updateRepo_def prepare_def Let_def)

theorem exists_stat_failure_witness:
  "osStat demo ''/backup/gamma'' = StatNotExist \<and>
   exists demo ''/backup/gamma'' = Inr False \<and>
   osStat demo ''/backup/locked'' = StatFailed ''permission denied'' \<and>
   exists demo ''/backup/locked'' = Inl (StatError ''permission denied'') \<and>
   updateRepo demo ''/backup'' locked = Inl (StatError ''permission denied'') \<and>
   exit_status (exec demo [0, 1, 0, 1, 2]
     (step demo 1 (dispatch maxWorkers ''/backup'' [locked, alpha, gamma] []))) = Some 2 \<and>
   out (exec demo [0, 1, 0, 1, 2]
     (step demo 1 (dispatch maxWorkers ''/backup'' [locked, alpha, gamma] []))) = []"
proof -
  let ?s = "dispatch maxWorkers ''/backup'' [locked, alpha, gamma] []"
  note defs = demo_def alpha_def gamma_def beta_def locked_def dispatch_def workers_def
    maxWorkers_def
  from exists_stat_failure [of demo "''/backup/gamma''" "[]" "[]" locked ?s 5 "[]" "[]"]
  have 1: "osStat demo ''/backup/gamma'' = StatNotExist \<and>
      exists demo ''/backup/gamma'' = Inr False"
    by (simp add: defs)
  from exists_stat_failure [of demo "''/backup/locked''" "''permission denied''" "''/backup''"
      locked ?s 1 "[alpha, gamma]" "[0, 1, 0, 1, 2]"]
  have 2: "osStat demo ''/backup/locked'' = StatFailed ''permission denied'' \<and>
      exists demo ''/backup/locked'' = Inl (StatError ''permission denied'') \<and>
      updateRepo demo ''/backup'' locked = Inl (StatError ''permission denied'') \<and>
      exit_status (exec demo [0, 1, 0, 1, 2] (step demo 1 ?s)) = Some 2 \<and>
      out (exec demo [0, 1, 0, 1, 2] (step demo 1 ?s)) = []"
    by (simp add: defs)
  show ?thesis using 1 2 by blast
qed

text \<open>
  C10: when the clone or pull of a repository returns an error, \<^verbatim>\<open>updateRepo\<close> prints
  the error and then still makes the deferred \<^verbatim>\<open>verbose\<close> call, which in verbose mode
  logs "Cloned  repository:" or "Updated repository:" with the repository's name. So
  does a worker of the pool, in its two moves after the command has ended.
\<close>

theorem updateRepo_failure_still_logs:
  "prepare w backupDir repo = Inr (c, deferred) \<and> cmdRun w c = Some err \<Longrightarrow>
     updateRepo w backupDir repo =
       Inr ([Exec c, Stderr err] @ (if verboseFlag w then [Logged deferred] else [])) \<and>
     (deferred = [S ''Updated repository:'', S (Name repo)] \<or>
      deferred = [S ''Cloned  repository:'', S (Name repo)]) \<and>
     (crashed s = None \<and> i < length (ws s) \<and> ws s ! i = Running c deferred \<longrightarrow>
        out (step w i (step w i s)) =
          out s @ [Stderr err] @ (if verboseFlag w then [Logged deferred] else []) \<and>
        ws (step w i (step w i s)) = (ws s)[i := Idle])"
  by (auto simp: updateRepo_def report_def verbose_def prepare_def step_def Let_def
      split: sum.splits bool.splits)

theorem updateRepo_failure_still_logs_witness:
  "prepare demo ''/backup'' beta =
     Inr (\<lparr>Args = [''git'', ''clone'', ''git://github.com/octo/beta.git'', ''/backup/beta''],
           Dir = []\<rparr>, [S ''Cloned  repository:'', S ''beta'']) \<and>
   cmdRun demo \<lparr>Args = [''git'', ''clone'', ''git://github.com/octo/beta.git'',
                      ''/backup/beta''], Dir = []\<rparr> = Some ''exit status 128'' \<and>
   updateRepo demo ''/backup'' beta =
     Inr [Exec \<lparr>Args = [''git'', ''clone'', ''git://github.com/octo/beta.git'',
                       ''/backup/beta''], Dir = []\<rparr>,
          Stderr ''exit status 128'',
          Logged [S ''Cloned  repository:'', S ''beta'']] \<and>
   out (step demo 0 (step demo 0 (step demo 0 (dispatch maxWorkers ''/backup'' [beta] [])))) =
     [Exec \<lparr>Args = [''git'', ''clone'', ''git://github.com/octo/beta.git'',
                    ''/backup/beta''], Dir = []\<rparr>,
      Stderr ''exit status 128'',
      Logged [S ''Cloned  repository:'', S ''beta'']]"
proof -
  let ?c = "\<lparr>Args = [''git'', ''clone'', ''git://github.com/octo/beta.git'', ''/backup/beta''],
           Dir = []\<rparr>"
  let ?d = "[S ''Cloned  repository:'', S ''beta'']"
  let ?s = "step demo 0 (dispatch maxWorkers ''/backup'' [beta] [])"
  have h: "prepare demo ''/backup'' beta = Inr (?c, ?d) \<and> cmdRun demo ?c = Some ''exit status 128''"
    by code_simp
  have s: "crashed ?s = None \<and> 0 < length (ws ?s) \<and> ws ?s ! 0 = Running ?c ?d \<and>
      out ?s = [Exec ?c] \<and> verboseFlag demo"
    by code_simp
  from updateRepo_failure_still_logs [OF h, of ?s 0] s
  have "updateRepo demo ''/backup'' beta = Inr [Exec ?c, Stderr ''exit status 128'', Logged ?d] \<and>
      out (step demo 0 (step demo 0 ?s)) = [Exec ?c, Stderr ''exit status 128'', Logged ?d]"
    by simp
  with h show ?thesis by blast
qed

subsection \<open>The worker pool\<close>

lemma step_length [simp]: "length (ws (step w i s)) = length (ws s)"
  by (simp add: step_def split: worker.splits list.splits sum.splits prod.splits)

lemma step_dir [simp]: "dir (step w i s) = dir s"
  by (simp add: step_def split: worker.splits list.splits sum.splits prod.splits)

lemma exec_length [simp]: "length (ws (exec w sched s)) = length (ws s)"
  by (induction sched arbitrary: s) simp_all

lemma exec_dir [simp]: "dir (exec w sched s) = dir s"
  by (induction sched arbitrary: s) simp_all

lemma exec_append: "exec w (xs @ ys) s = exec w ys (exec w xs s)"
  by (induction xs arbitrary: s) simp_all

lemma mset_concat_update:
  "i < length xs \<Longrightarrow>
     mset (concat (map f (xs[i := y]))) + mset (f (xs ! i)) =
     mset (concat (map f xs)) + mset (f y)"
proof (induction xs arbitrary: i)
  case Nil
  then show ?case by simp
next
  case (Cons x xs)
  then show ?case by (cases i) (simp_all add: ac_simps)
qed

lemma events_prepare:
  "prepare w d repo = Inr (c, deferred) \<Longrightarrow>
     events w d repo = Exec c # report (cmdRun w c) @ verbose w deferred"
  by (simp add: events_def updateRepo_def)

lemma step_account:
  assumes "crashed (step w i s) = None"
  shows "ledger w (step w i s) = ledger w s"
proof (cases "crashed s \<noteq> None \<or> i \<ge> length (ws s)")
  case True
  then show ?thesis by (auto simp: step_def)
next
  case False
  then have i: "i < length (ws s)" and c: "crashed s = None" by auto
  show ?thesis
  proof (cases "ws s ! i")
    case Idle
    show ?thesis
    proof (cases "queue s")
      case Nil
      with Idle i c have "step w i s = s\<lparr>ws := (ws s)[i := Done]\<rparr>"
        by (simp add: step_def)
      moreover from mset_concat_update [OF i, of "remaining w" Done] Idle
      have "mset (concat (map (remaining w) ((ws s)[i := Done]))) =
          mset (concat (map (remaining w) (ws s)))"
        by simp
      ultimately show ?thesis by (simp add: ledger_def)
    next
      case (Cons repo rest)
      show ?thesis
      proof (cases "prepare w (dir s) repo")
        case (Inl p)
        with Idle i c Cons have "crashed (step w i s) = Some p"
          by (simp add: step_def)
        with assms show ?thesis by simp
      next
        case (Inr job)
        obtain cm d where job: "job = (cm, d)" by (cases job)
        with Inr Idle i c Cons have st: "step w i s =
            s\<lparr>queue := rest, ws := (ws s)[i := Running cm d], out := out s @ [Exec cm]\<rparr>"
          by (simp add: step_def)
        from mset_concat_update [OF i, of "remaining w" "Running cm d"] Idle
        have "mset (concat (map (remaining w) ((ws s)[i := Running cm d]))) =
            mset (concat (map (remaining w) (ws s))) + mset (report (cmdRun w cm) @ verbose w d)"
          by simp
        moreover have "events w (dir s) repo = Exec cm # report (cmdRun w cm) @ verbose w d"
          using Inr job by (simp add: events_prepare)
        ultimately show ?thesis
          by (simp add: ledger_def st Cons)
      qed
    qed
  next
    case (Running cm d)
    with i c have st: "step w i s =
        s\<lparr>ws := (ws s)[i := Returning d], out := out s @ report (cmdRun w cm)\<rparr>"
      by (simp add: step_def)
    from mset_concat_update [OF i, of "remaining w" "Returning d"] Running
    have "mset (concat (map (remaining w) ((ws s)[i := Returning d]))) +
        mset (report (cmdRun w cm)) = mset (concat (map (remaining w) (ws s)))"
      by (simp add: ac_simps)
    then show ?thesis
      by (simp add: ledger_def st ac_simps)
  next
    case (Returning d)
    with i c have st: "step w i s =
        s\<lparr>ws := (ws s)[i := Idle], out := out s @ verbose w d\<rparr>"
      by (simp add: step_def)
    from mset_concat_update [OF i, of "remaining w" Idle] Returning
    have "mset (concat (map (remaining w) ((ws s)[i := Idle]))) + mset (verbose w d) =
        mset (concat (map (remaining w) (ws s)))"
      by simp
    then show ?thesis
      by (simp add: ledger_def st ac_simps)
  next
    case Done
    with i c show ?thesis by (simp add: step_def)
  qed
qed

lemma exec_account:
  "crashed (exec w sched s) = None \<Longrightarrow> ledger w (exec w sched s) = ledger w s"
proof (induction sched arbitrary: s)
  case Nil
  then show ?case by simp
next
  case (Cons i sched)
  have "crashed (step w i s) = None"
  proof (rule ccontr)
    assume n: "crashed (step w i s) \<noteq> None"
    then have "exec w sched (step w i s) = step w i s" by (rule exec_crashed)
    with Cons.prems n show False by simp
  qed
  with Cons show ?case by (simp add: step_account)
qed

lemma account_final:
  "exit_status s = Some 0 \<Longrightarrow> ledger w s = mset (out s)"
proof -
  assume "exit_status s = Some 0"
  then have q: "queue s = []" and d: "list_all (\<lambda>x. x = Done) (ws s)"
    by (auto simp: exit_status_def split: if_splits)
  from d have "concat (map (remaining w) (ws s)) = []"
    by (induction "ws s" arbitrary: s) (auto simp: list_all_iff)
  with q show ?thesis by (simp add: ledger_def)
qed

lemma prepare_stat_ok: "stat_ok w d repo \<Longrightarrow> \<exists>c deferred. prepare w d repo = Inr (c, deferred)"
  by (auto simp: stat_ok_def prepare_def exists_def Let_def split: stat_result.splits)

lemma list_all_update: "list_all P xs \<Longrightarrow> P y \<Longrightarrow> list_all P (xs[i := y])"
  by (induction xs arbitrary: i) (auto split: nat.splits)

text \<open>Soundness is kept by every move.\<close>

lemma step_sound:
  assumes "sound w s"
  shows "sound w (step w i s)"
proof (cases "i \<ge> length (ws s)")
  case True
  with assms show ?thesis by (simp add: step_def)
next
  case False
  then have i: "i < length (ws s)" by simp
  from assms have c: "crashed s = None" by (simp add: sound_def)
  show ?thesis
  proof (cases "ws s ! i")
    case Idle
    show ?thesis
    proof (cases "queue s")
      case Nil
      with Idle i c assms show ?thesis by (simp add: step_def sound_def)
    next
      case (Cons repo rest)
      with assms have "stat_ok w (dir s) repo" by (simp add: sound_def)
      then obtain cm d where "prepare w (dir s) repo = Inr (cm, d)"
        using prepare_stat_ok by blast
      with Idle i c Cons assms show ?thesis
        by (auto simp: step_def sound_def list_all_update)
    qed
  next
    case (Running cm d)
    with i c assms show ?thesis by (auto simp: step_def sound_def list_all_update)
  next
    case (Returning d)
    with i c assms show ?thesis by (auto simp: step_def sound_def list_all_update)
  next
    case Done
    with i c assms show ?thesis by (simp add: step_def)
  qed
qed

lemma exec_sound: "sound w s \<Longrightarrow> sound w (exec w sched s)"
  by (induction sched arbitrary: s) (simp_all add: step_sound)

lemma dispatch_sound:
  "0 < maxW \<Longrightarrow> list_all (stat_ok w d) repos \<Longrightarrow> sound w (dispatch maxW d repos pr)"
  by (cases repos) (auto simp: sound_def dispatch_def workers_def list_all_length)

lemma sound_status: "sound w s \<Longrightarrow> exit_status s = None \<or> exit_status s = Some 0"
  by (auto simp: sound_def exit_status_def)

text \<open>
  A move of a worker that has not left its loop lowers the potential by one; a round in
  which every worker moves once lowers it unless the process has ended.
\<close>

lemma sum_list_update:
  "i < length xs \<Longrightarrow>
     sum_list (map f (xs[i := y])) + f (xs ! i) = sum_list (map f xs) + (f y :: nat)"
proof (induction xs arbitrary: i)
  case Nil
  then show ?case by simp
next
  case (Cons x xs)
  then show ?case by (cases i) (simp_all add: add.assoc add.left_commute)
qed

lemma step_decreases:
  assumes "sound w s" and "i < length (ws s)" and "ws s ! i \<noteq> Done"
  shows "Suc (potential (step w i s)) = potential s"
proof -
  from assms(1) have c: "crashed s = None" by (simp add: sound_def)
  show ?thesis
  proof (cases "ws s ! i")
    case Idle
    show ?thesis
    proof (cases "queue s")
      case Nil
      with Idle c assms(2) have "step w i s = s\<lparr>ws := (ws s)[i := Done]\<rparr>"
        by (simp add: step_def)
      with sum_list_update [OF assms(2), of rank Done] Idle show ?thesis
        by (simp add: potential_def)
    next
      case (Cons repo rest)
      with assms(1) have "stat_ok w (dir s) repo" by (simp add: sound_def)
      then obtain cm d where "prepare w (dir s) repo = Inr (cm, d)"
        using prepare_stat_ok by blast
      with Idle c assms(2) Cons have "step w i s =
          s\<lparr>queue := rest, ws := (ws s)[i := Running cm d], out := out s @ [Exec cm]\<rparr>"
        by (simp add: step_def)
      with sum_list_update [OF assms(2), of rank "Running cm d"] Idle Cons show ?thesis
        by (simp add: potential_def)
    qed
  next
    case (Running cm d)
    with c assms(2) have "step w i s =
        s\<lparr>ws := (ws s)[i := Returning d], out := out s @ report (cmdRun w cm)\<rparr>"
      by (simp add: step_def)
    with sum_list_update [OF assms(2), of rank "Returning d"] Running show ?thesis
      by (simp add: potential_def)
  next
    case (Returning d)
    with c assms(2) have "step w i s =
        s\<lparr>ws := (ws s)[i := Idle], out := out s @ verbose w d\<rparr>"
      by (simp add: step_def)
    with sum_list_update [OF assms(2), of rank Idle] Returning show ?thesis
      by (simp add: potential_def)
  next
    case Done
    with assms(3) show ?thesis by simp
  qed
qed

lemma step_idle: "i \<ge> length (ws s) \<or> ws s ! i = Done \<Longrightarrow> step w i s = s"
  by (auto simp: step_def)

lemma step_mono: "sound w s \<Longrightarrow> potential (step w i s) \<le> potential s"
  using step_decreases [of w s i] step_idle [of s i w]
  by (cases "i < length (ws s) \<and> ws s ! i \<noteq> Done") (auto simp: not_less)

lemma exec_mono: "sound w s \<Longrightarrow> potential (exec w sched s) \<le> potential s"
proof (induction sched arbitrary: s)
  case Nil
  then show ?case by simp
next
  case (Cons i sched)
  from Cons.IH [OF step_sound [OF Cons.prems], of i] step_mono [OF Cons.prems, of i]
  show ?case by simp
qed

lemma step_other: "j \<noteq> i \<Longrightarrow> ws (step w i s) ! j = ws s ! j"
  by (simp add: step_def split: worker.splits list.splits sum.splits prod.splits)

lemma exec_other: "j \<notin> set sched \<Longrightarrow> ws (exec w sched s) ! j = ws s ! j"
  by (induction sched arbitrary: s) (auto simp: step_other)

lemma round_decreases:
  assumes "sound w s" and "exit_status s = None"
  shows "potential (exec w [0..<length (ws s)] s) < potential s"
proof -
  from assms have "\<exists>j < length (ws s). ws s ! j \<noteq> Done"
    by (auto simp: sound_def exit_status_def list_all_length split: if_splits)
  then obtain j where j: "j < length (ws s)" "ws s ! j \<noteq> Done" by blast
  let ?a = "exec w [0..<j] s"
  have "[0..<j + (length (ws s) - j)] = [0..<j] @ [j..<j + (length (ws s) - j)]"
    by (rule upt_add_eq_append) simp
  then have split: "[0..<length (ws s)] = [0..<j] @ j # [Suc j..<length (ws s)]"
    using j(1) by (simp add: upt_conv_Cons)
  have sa: "sound w ?a" using assms(1) by (rule exec_sound)
  have "ws ?a ! j = ws s ! j" by (rule exec_other) simp
  with j have "Suc (potential (step w j ?a)) = potential ?a"
    using sa by (intro step_decreases) simp_all
  moreover have "potential ?a \<le> potential s" using assms(1) by (rule exec_mono)
  moreover have "potential (exec w [Suc j..<length (ws s)] (step w j ?a)) \<le> potential (step w j ?a)"
    using step_sound [OF sa] by (rule exec_mono)
  ultimately show ?thesis
    by (simp add: split exec_append)
qed

lemma final_fixed: "exit_status s = Some 0 \<Longrightarrow> exec w sched s = s"
proof (induction sched)
  case Nil
  then show ?case by simp
next
  case (Cons i sched)
  from Cons.prems have "list_all (\<lambda>x. x = Done) (ws s)"
    by (simp add: exit_status_def split: if_splits)
  then have "i \<ge> length (ws s) \<or> ws s ! i = Done"
    by (cases "i < length (ws s)") (simp_all add: list_all_length)
  then have "step w i s = s" by (rule step_idle)
  with Cons show ?case by simp
qed

lemma rank_zero: "rank x = 0 \<longleftrightarrow> x = Done"
  by (cases x) simp_all

lemma rounds_complete:
  "sound w s \<Longrightarrow> potential s \<le> k \<Longrightarrow>
     exit_status (exec w (concat (replicate k [0..<length (ws s)])) s) = Some 0"
proof (induction k arbitrary: s)
  case 0
  then have "queue s = []" and "sum_list (map rank (ws s)) = 0"
    by (simp_all add: potential_def)
  then have "list_all (\<lambda>x. x = Done) (ws s)"
    by (simp add: list_all_iff rank_zero)
  with 0 \<open>queue s = []\<close> show ?case by (simp add: exit_status_def sound_def)
next
  case (Suc k)
  show ?case
  proof (cases "exit_status s = Some 0")
    case True
    then show ?thesis by (simp add: final_fixed)
  next
    case False
    with sound_status [OF Suc.prems(1)] have n: "exit_status s = None" by simp
    let ?a = "exec w [0..<length (ws s)] s"
    have "potential ?a \<le> k"
      using round_decreases [OF Suc.prems(1) n] Suc.prems(2) by simp
    from Suc.IH [OF exec_sound [OF Suc.prems(1)] this]
    show ?thesis by (simp add: exec_append)
  qed
qed

lemma dispatch_potential:
  "potential (dispatch maxW d repos pr) = 3 * length repos + nat (workers maxW repos)"
  by (simp add: potential_def dispatch_def sum_list_replicate)

lemma events_stderr:
  "length (filter isStderr (events w d repo)) = (if failing w d repo then 1 else 0)"
  by (auto simp: events_def failing_def updateRepo_def report_def verbose_def
      split: sum.splits option.splits)

lemma concat_events_stderr:
  "length (filter isStderr (concat (map (events w d) repos))) = length (filter (failing w d) repos)"
  by (induction repos) (simp_all add: events_stderr)

lemma mset_filter_length:
  "mset xs = mset ys \<Longrightarrow> length (filter P xs) = length (filter P ys)"
  by (metis mset_filter size_mset)

text \<open>
  C5: for a concurrency limit \<open>C\<close> and \<open>N\<close> repositories the dispatcher starts
  \<open>min C N\<close> workers, and no move of a run adds or removes one; the program's limit is
  10. With no repository there is no worker, nothing moves, and the process has ended
  with status 0.
\<close>

theorem workers_started:
  "length (ws (dispatch C d repos pr)) = min (nat C) (length repos) \<and>
   length (ws (exec w sched (dispatch C d repos pr))) = min (nat C) (length repos) \<and>
   workers maxWorkers repos = min 10 (int (length repos)) \<and>
   ws (dispatch C d [] pr) = [] \<and>
   exit_status (dispatch C d [] pr) = Some 0 \<and>
   exec w sched (dispatch C d [] pr) = dispatch C d [] pr"
proof -
  have e: "exec w sched (dispatch C d [] pr) = dispatch C d [] pr"
    by (induction sched) (simp_all add: dispatch_def workers_def step_def)
  show ?thesis
    by (simp add: e) (auto simp: dispatch_def workers_def maxWorkers_def exit_status_def)
qed

theorem workers_started_witness:
  "ws (dispatch maxWorkers ''/backup'' [alpha, beta, gamma] []) = [Idle, Idle, Idle] \<and>
   length (ws (exec demo [0, 1, 2, 0] (dispatch maxWorkers ''/backup'' [alpha, beta, gamma] []))) = 3 \<and>
   length (ws (dispatch 2 ''/backup'' [alpha, beta, gamma] [])) = 2 \<and>
   exit_status (dispatch maxWorkers ''/backup'' [] []) = Some 0"
proof -
  have a: "ws (dispatch maxWorkers ''/backup'' [alpha, beta, gamma] []) = [Idle, Idle, Idle]"
    by code_simp
  show ?thesis
    using a workers_started [of maxWorkers "''/backup''" "[alpha, beta, gamma]" "[]" demo "[0, 1, 2, 0]"]
      workers_started [of 2 "''/backup''" "[alpha, beta, gamma]" "[]" demo "[]"]
    by (simp add: maxWorkers_def)
qed

text \<open>
  C1, as the specification states it, fails in its last part: \<^verbatim>\<open>main\<close> has no exit
  status for a failed repository. In the sample the clone of \<^verbatim>\<open>beta\<close> fails; the three
  workers finish their repositories and the process ends with status 0.
\<close>

theorem failed_clone_exit_status_counterexample:
  "main demo [''octo'', ''/backup''] =
     Some (Inr (dispatch maxWorkers ''/backup'' [alpha, beta, gamma]
       [Logged [S ''Backup for'', S ''user'', S ''octo'', S ''with'', I 3,
                S ''repositories'']])) \<and>
   updateRepo demo ''/backup'' beta =
     Inr [Exec \<lparr>Args = [''git'', ''clone'', ''git://github.com/octo/beta.git'',
                       ''/backup/beta''], Dir = []\<rparr>,
          Stderr ''exit status 128'',
          Logged [S ''Cloned  repository:'', S ''beta'']] \<and>
   exit_status (exec demo [0, 1, 2, 0, 1, 2, 0, 1, 2, 0, 1, 2]
     (dispatch maxWorkers ''/backup'' [alpha, beta, gamma]
       [Logged [S ''Backup for'', S ''user'', S ''octo'', S ''with'', I 3,
                S ''repositories'']])) = Some 0"
  by code_simp

text \<open>
  C1, amended: when no existence check panics, a clone or pull that fails is not fatal.
  In every run no panic occurs, whatever the commands return, and the process is either
  still running or has ended with status 0: the exit status of \<^verbatim>\<open>main.go\<close> does not
  signal a failed repository. When the process has ended, its output is the output of
  \<^verbatim>\<open>updateRepo\<close> for each repository once, in some order, with one error line for
  each repository whose command failed. No worker is stopped: however a run went so
  far, it ends once every worker has had \<open>3 N + C\<close> more turns, for \<open>N\<close>
  repositories and \<open>C\<close> workers. The second entry point exits with a non-zero status
  exactly when \<^verbatim>\<open>ghbackup.Run\<close> returns an error.
\<close>

theorem command_failure_not_fatal:
  "0 < maxW \<and> list_all (stat_ok w d) repos \<Longrightarrow>
     crashed (exec w sched (dispatch maxW d repos pr)) = None \<and>
     (exit_status (exec w sched (dispatch maxW d repos pr)) = None \<or>
      exit_status (exec w sched (dispatch maxW d repos pr)) = Some 0) \<and>
     (exit_status (exec w sched (dispatch maxW d repos pr)) = Some 0 \<longrightarrow>
        mset (out (exec w sched (dispatch maxW d repos pr))) =
          mset pr + mset (concat (map (events w d) repos)) \<and>
        length (filter isStderr (out (exec w sched (dispatch maxW d repos pr)))) =
          length (filter isStderr pr) + length (filter (failing w d) repos)) \<and>
     exit_status
       (exec w (sched @ concat (replicate (3 * length repos + nat (workers maxW repos))
                                  [0..<nat (workers maxW repos)]))
          (dispatch maxW d repos pr)) = Some 0 \<and>
     (ghbackup_main Run secret [acct, d] \<noteq> 0) = (Run acct d secret \<noteq> None)"
proof -
  assume a: "0 < maxW \<and> list_all (stat_ok w d) repos"
  let ?s = "dispatch maxW d repos pr"
  let ?f = "exec w sched ?s"
  let ?n = "nat (workers maxW repos)"
  have init: "sound w ?s"
    using a by (simp add: dispatch_sound)
  have snd: "sound w ?f"
    using init by (rule exec_sound)
  then have safe: "crashed ?f = None"
    by (simp add: sound_def)
  have status: "exit_status ?f = None \<or> exit_status ?f = Some 0"
    using snd by (rule sound_status)
  have acc: "ledger w ?f = mset pr + mset (concat (map (events w d) repos))"
    using exec_account [OF safe] by (simp add: ledger_def dispatch_def)
  have fin: "exit_status ?f = Some 0 \<longrightarrow>
        mset (out ?f) = mset pr + mset (concat (map (events w d) repos)) \<and>
        length (filter isStderr (out ?f)) =
          length (filter isStderr pr) + length (filter (failing w d) repos)"
  proof
    assume "exit_status ?f = Some 0"
    then have "mset (out ?f) = mset (pr @ concat (map (events w d) repos))"
      using acc account_final [of ?f w] by simp
    then show "mset (out ?f) = mset pr + mset (concat (map (events w d) repos)) \<and>
        length (filter isStderr (out ?f)) =
          length (filter isStderr pr) + length (filter (failing w d) repos)"
      using mset_filter_length [of "out ?f" "pr @ concat (map (events w d) repos)" isStderr]
      by (simp add: concat_events_stderr)
  qed
  have "potential ?f \<le> potential ?s"
    using init by (rule exec_mono)
  then have "potential ?f \<le> 3 * length repos + ?n"
    by (simp add: dispatch_potential)
  from rounds_complete [OF snd this]
  have compl: "exit_status
       (exec w (sched @ concat (replicate (3 * length repos + ?n) [0..<?n])) ?s) = Some 0"
    by (simp add: exec_append dispatch_def)
  have cli: "(ghbackup_main Run secret [acct, d] \<noteq> 0) = (Run acct d secret \<noteq> None)"
    by (simp add: ghbackup_main_def split: option.splits)
  show ?thesis using safe status fin compl cli by blast
qed

theorem command_failure_not_fatal_witness:
  "list_all (stat_ok demo ''/backup'') [alpha, beta, gamma] \<and>
   filter (failing demo ''/backup'') [alpha, beta, gamma] = [beta] \<and>
   crashed (exec demo [2, 1, 1, 0, 1, 2, 0, 1, 2, 0, 1, 2, 0]
     (dispatch maxWorkers ''/backup'' [alpha, beta, gamma] [])) = None \<and>
   exit_status (exec demo [2, 1, 1, 0, 1, 2, 0, 1, 2, 0, 1, 2, 0]
     (dispatch maxWorkers ''/backup'' [alpha, beta, gamma] [])) = Some 0 \<and>
   length (filter isStderr (out (exec demo [2, 1, 1, 0, 1, 2, 0, 1, 2, 0, 1, 2, 0]
     (dispatch maxWorkers ''/backup'' [alpha, beta, gamma] [])))) = 1 \<and>
   exit_status (exec demo ([2, 1, 1] @ concat (replicate 12 [0, 1, 2]))
     (dispatch maxWorkers ''/backup'' [alpha, beta, gamma] [])) = Some 0 \<and>
   ghbackup_main (\<lambda>a d s. Some ''failed'') [] [''octo'', ''/backup''] \<noteq> 0"
proof -
  let ?repos = "[alpha, beta, gamma]"
  let ?sched = "[2, 1, 1, 0, 1, 2, 0, 1, 2, 0, 1, 2, 0]"
  let ?s = "dispatch maxWorkers ''/backup'' ?repos []"
  have h: "0 < maxWorkers \<and> list_all (stat_ok demo ''/backup'') ?repos"
    by code_simp
  have f: "filter (failing demo ''/backup'') ?repos = [beta]"
    by code_simp
  have e: "exit_status (exec demo ?sched ?s) = Some 0"
    by code_simp
  have r: "concat (replicate (3 * length ?repos + nat (workers maxWorkers ?repos))
        [0..<nat (workers maxWorkers ?repos)]) = concat (replicate 12 [0, 1, 2])"
    by code_simp
  from command_failure_not_fatal [OF h, of ?sched "[]" "\<lambda>a d s. Some ''failed''" "[]" "''octo''"]
  have 1: "crashed (exec demo ?sched ?s) = None \<and>
      length (filter isStderr (out (exec demo ?sched ?s))) = 1 \<and>
      ghbackup_main (\<lambda>a d s. Some ''failed'') [] [''octo'', ''/backup''] \<noteq> 0"
    using e f by simp
  from command_failure_not_fatal [OF h, of "[2, 1, 1]" "[]" "\<lambda>a d s. None" "[]" "[]"]
  have 2: "exit_status (exec demo ([2, 1, 1] @ concat (replicate 12 [0, 1, 2])) ?s) = Some 0"
    unfolding r by blast
  from h f e 1 2 show ?thesis by blast
qed

end
